theory Spec2Isabelle
  imports Complex_Main
begin

section \<open>Data model of \<open>src/modules/event-manager.js\<close>\<close>

text \<open>
  The file holds two modules: the event manager (event log, statistics, SSE fan-out)
  and the account health tracker (per account and model counters, score, auto-disable,
  configuration).  JavaScript numbers are modelled exactly: counters are \<open>nat\<close>,
  millisecond timestamps are \<open>int\<close>, scores and thresholds are \<open>rat\<close>
  (no rounding error of IEEE doubles, no NaN, no Infinity).  An ISO timestamp string
  is modelled by the millisecond value it denotes; \<open>null\<close>/\<open>undefined\<close> is
  \<open>None\<close>.  Logger calls are not state and are left out.  Keys of a health
  object are assumed not to be property names inherited from \<open>Object.prototype\<close>.
\<close>

subsection \<open>Events\<close>

datatype EventType =
  REQUEST | RATE_LIMIT | AUTH_FAILURE | API_ERROR | FALLBACK | ACCOUNT_SWITCH
  | HEALTH_CHANGE | SYSTEM

datatype Severity = INFO | WARN | ERROR

text \<open>\<open>error?.code || error?.statusCode\<close>: a code is a number or a string.\<close>

datatype ErrCode = CodeNum int | CodeStr string

record LastError =
  le_message :: string
  le_code :: "ErrCode option"
  le_timestamp :: int

text \<open>
  The \<open>details\<close> payload of an event, with the keys this file writes or reads,
  each of the type the file writes (\<open>success\<close> is a boolean); a key that is absent
  is \<open>None\<close>.
\<close>

record Details =
  d_success :: "bool option"
  d_latencyMs :: "int option"
  d_change :: "string option"
  d_previousState :: "string option"
  d_trigger :: "string option"
  d_disabledDurationMs :: "int option"
  d_reason :: "string option"
  d_consecutiveFailures :: "nat option"
  d_lastError :: "LastError option"

definition emptyDetails :: Details where
  "emptyDetails = \<lparr> d_success = None, d_latencyMs = None, d_change = None,
     d_previousState = None, d_trigger = None, d_disabledDurationMs = None,
     d_reason = None, d_consecutiveFailures = None, d_lastError = None \<rparr>"

text \<open>The id \<open>evt_<Date.now()>_<8 hex digits>\<close> is kept as its two parts.\<close>

record Event =
  ev_id :: "int \<times> string"
  ev_timestamp :: int
  ev_type :: EventType
  ev_requestId :: "string option"
  ev_account :: "string option"
  ev_model :: "string option"
  ev_severity :: Severity
  ev_message :: string
  ev_details :: Details

record EventData =
  ed_type :: "EventType option"
  ed_requestId :: "string option"
  ed_account :: "string option"
  ed_model :: "string option"
  ed_severity :: "Severity option"
  ed_message :: "string option"
  ed_details :: "Details option"

text \<open>
  What one call reads from its surroundings: the clock and the random bytes.  All the
  clock readings of one call are the same instant.
\<close>

record Env =
  now :: int
  rnd :: string

subsection \<open>SSE clients\<close>

text \<open>
  A frame \<open>data: <json>\n\n\<close> is kept by its payload.  A response object is
  named by a number; it holds the headers set, the frames written so far and whether
  its \<open>write\<close> throws.
\<close>

datatype Frame = Connected int | Batch "Event list" | Single Event

record Response =
  headers :: "(string \<times> string) list"
  written :: "Frame list"
  failing :: bool

subsection \<open>Health records, accounts and configuration\<close>

record HealthRecord =
  successCount :: nat
  failCount :: nat
  consecutiveFailures :: nat
  lastSuccess :: "int option"
  lastError :: "LastError option"
  healthScore :: rat
  disabled :: bool
  manualDisabled :: bool
  disabledReason :: "string option"
  disabledAt :: "int option"

record Account =
  email :: string
  enabled :: "bool option"
  health :: "(string \<rightharpoonup> HealthRecord) option"

text \<open>
  A value of a configuration patch as JSON delivers it.  The seven keys the module
  validates are fields; every other key of the patch or of the stored object
  (\<open>quotaThreshold\<close>, \<open>quotaPollIntervalMs\<close>, \<open>staleIssueMs\<close>, ...) is in
  \<open>otherKeys\<close>.
\<close>

datatype JsVal = JNull | JBool bool | JNum rat | JStr string

record HealthConfig =
  consecutiveFailureThreshold :: rat
  warningThreshold :: rat
  criticalThreshold :: rat
  autoDisableEnabled :: bool
  autoRecoveryMs :: rat
  eventMaxCount :: rat
  eventRetentionDays :: rat
  otherKeys :: "(string \<times> JsVal) list"

record ConfigPatch =
  p_consecutiveFailureThreshold :: "JsVal option"
  p_warningThreshold :: "JsVal option"
  p_criticalThreshold :: "JsVal option"
  p_autoRecoveryMs :: "JsVal option"
  p_autoDisableEnabled :: "JsVal option"
  p_eventMaxCount :: "JsVal option"
  p_eventRetentionDays :: "JsVal option"
  p_otherKeys :: "(string \<times> JsVal) list"

subsection \<open>Module state\<close>

text \<open>
  The module-level variables \<open>events\<close>, \<open>isDirty\<close>, \<open>sseClients\<close> (a Set,
  iterated in insertion order) and \<open>healthConfig\<close>, together with the response
  objects and the \<open>health\<close> section last handed to \<open>saveConfig\<close>.
\<close>

record State =
  events :: "Event list"
  isDirty :: bool
  sseClients :: "nat list"
  responses :: "nat \<Rightarrow> Response"
  healthConfig :: HealthConfig
  savedConfig :: "HealthConfig option"

definition DEFAULT_CONFIG :: HealthConfig where
  "DEFAULT_CONFIG = \<lparr> consecutiveFailureThreshold = 5, warningThreshold = 40,
     criticalThreshold = 25, autoDisableEnabled = True,
     autoRecoveryMs = 24 * 60 * 60 * 1000, eventMaxCount = 10000,
     eventRetentionDays = 30, otherKeys = [] \<rparr>"

section \<open>Event manager\<close>

text \<open>\<open>x || null\<close> on a string: the empty string is falsy.\<close>

definition orNull :: "string option \<Rightarrow> string option" where
  "orNull x = (case x of None \<Rightarrow> None | Some s \<Rightarrow> if s = [] then None else Some s)"

definition generateEventId :: "Env \<Rightarrow> int \<times> string" where
  "generateEventId env = (now env, rnd env)"

text \<open>
  \<open>broadcast\<close>: every client of the set is written to in turn; a client whose
  \<open>write\<close> throws is collected and deleted from the set after the pass.
\<close>

definition writeFrame :: "Frame \<Rightarrow> Response \<Rightarrow> Response option" where
  "writeFrame f r = (if failing r then None else Some (r\<lparr> written := written r @ [f] \<rparr>))"

fun broadcastLoop ::
  "nat list \<Rightarrow> Frame \<Rightarrow> (nat \<Rightarrow> Response) \<Rightarrow> nat list \<Rightarrow> (nat \<Rightarrow> Response) \<times> nat list" where
  "broadcastLoop [] f rs dead = (rs, dead)"
| "broadcastLoop (c # cs) f rs dead =
     (case writeFrame f (rs c) of
        None \<Rightarrow> broadcastLoop cs f rs (dead @ [c])
      | Some r \<Rightarrow> broadcastLoop cs f (rs(c := r)) dead)"

definition broadcast :: "Event \<Rightarrow> State \<Rightarrow> State" where
  "broadcast event st =
     (let (rs, deadClients) = broadcastLoop (sseClients st) (Single event) (responses st) []
      in st\<lparr> responses := rs,
             sseClients := filter (\<lambda>c. c \<notin> set deadClients) (sseClients st) \<rparr>)"

definition mkEvent :: "Env \<Rightarrow> EventData \<Rightarrow> Event" where
  "mkEvent env eventData =
     \<lparr> ev_id = generateEventId env,
       ev_timestamp = now env,
       ev_type = (case ed_type eventData of None \<Rightarrow> SYSTEM | Some t \<Rightarrow> t),
       ev_requestId = orNull (ed_requestId eventData),
       ev_account = orNull (ed_account eventData),
       ev_model = orNull (ed_model eventData),
       ev_severity = (case ed_severity eventData of None \<Rightarrow> INFO | Some s \<Rightarrow> s),
       ev_message = (case ed_message eventData of None \<Rightarrow> [] | Some m \<Rightarrow> m),
       ev_details = (case ed_details eventData of None \<Rightarrow> emptyDetails | Some d \<Rightarrow> d) \<rparr>"

text \<open>\<open>record\<close> (named \<open>recordEvent\<close>: \<open>record\<close> is a keyword).\<close>

definition recordEvent :: "Env \<Rightarrow> EventData \<Rightarrow> State \<Rightarrow> Event \<times> State" where
  "recordEvent env eventData st =
     (let event = mkEvent env eventData;
          st1 = st\<lparr> events := events st @ [event], isDirty := True \<rparr>
      in (event, broadcast event st1))"

definition recordHealthChange ::
  "Env \<Rightarrow> string \<Rightarrow> string \<Rightarrow> string \<Rightarrow> Details \<Rightarrow> State \<Rightarrow> Event \<times> State" where
  "recordHealthChange env account model change details st =
     (let severity = (if change = ''disabled'' then ERROR else INFO)
      in recordEvent env
           \<lparr> ed_type = Some HEALTH_CHANGE, ed_requestId = None,
             ed_account = Some account, ed_model = Some model,
             ed_severity = Some severity,
             ed_message = Some (''Health '' @ change @ '' for '' @ account @ '' on '' @ model),
             ed_details = Some (details\<lparr> d_change := Some change \<rparr>) \<rparr> st)"

text \<open>Decimal rendering of a non-negative integer inside a template string.\<close>

fun string_of_nat :: "nat \<Rightarrow> string" where
  "string_of_nat n =
     (if n < 10 then [char_of (48 + n)]
      else string_of_nat (n div 10) @ [char_of (48 + n mod 10)])"


subsection \<open>Statistics\<close>










subsection \<open>Subscription\<close>









definition getSSEClientCount :: "State \<Rightarrow> nat" where
  "getSSEClientCount st = length (sseClients st)"

section \<open>Account health tracker\<close>

text \<open>What a tracker operation returns: \<open>null\<close>, a boolean or a health object.\<close>

datatype RetVal = RNull | RBool bool | RHealth HealthRecord

text \<open>The \<open>error\<close> argument of \<open>recordResult\<close>, with the properties it reads.\<close>

record ErrorArg =
  err_message :: "string option"
  err_code :: "ErrCode option"
  err_statusCode :: "ErrCode option"

definition initHealth :: HealthRecord where
  "initHealth = \<lparr> successCount = 0, failCount = 0, consecutiveFailures = 0,
     lastSuccess = None, lastError = None, healthScore = 100, disabled = False,
     manualDisabled = False, disabledReason = None, disabledAt = None \<rparr>"

definition calculateScore :: "HealthRecord \<Rightarrow> rat" where
  "calculateScore h =
     (let total = successCount h + failCount h
      in if total = 0 then 100
         else let baseScore = (of_nat (successCount h) / of_nat total) * 100;
                  consecutivePenalty = min (of_nat (consecutiveFailures h) * 6) 30
              in max 0 (min 100 (baseScore - consecutivePenalty)))"

text \<open>Truthiness of an error code: \<open>0\<close> and the empty string are falsy.\<close>

definition truthyCode :: "ErrCode option \<Rightarrow> bool" where
  "truthyCode c = (case c of None \<Rightarrow> False | Some (CodeNum n) \<Rightarrow> n \<noteq> 0
                   | Some (CodeStr s) \<Rightarrow> s \<noteq> [])"

definition mkLastError :: "Env \<Rightarrow> ErrorArg option \<Rightarrow> LastError" where
  "mkLastError env error =
     \<lparr> le_message =
         (case error of None \<Rightarrow> ''Unknown error''
          | Some e \<Rightarrow> (case err_message e of None \<Rightarrow> ''Unknown error''
                       | Some m \<Rightarrow> if m = [] then ''Unknown error'' else m)),
       le_code =
         (case error of None \<Rightarrow> None
          | Some e \<Rightarrow> if truthyCode (err_code e) then err_code e
                      else if truthyCode (err_statusCode e) then err_statusCode e
                      else None),
       le_timestamp = now env \<rparr>"

text \<open>\<open>account?.health?.[modelId]\<close>\<close>

definition lookupHealth :: "Account option \<Rightarrow> string \<Rightarrow> HealthRecord option" where
  "lookupHealth account modelId =
     (case account of None \<Rightarrow> None
      | Some a \<Rightarrow> (case health a of None \<Rightarrow> None | Some hm \<Rightarrow> hm modelId))"

text \<open>
  The two lazy initialisations at the head of \<open>recordResult\<close> and \<open>toggleModel\<close>:
  the health object of the account and the record of the model.
\<close>

definition healthObject :: "Account \<Rightarrow> (string \<rightharpoonup> HealthRecord)" where
  "healthObject a = (case health a of None \<Rightarrow> Map.empty | Some hm \<Rightarrow> hm)"

definition healthOrInit :: "Account \<Rightarrow> string \<Rightarrow> HealthRecord" where
  "healthOrInit a modelId =
     (case healthObject a modelId of None \<Rightarrow> initHealth | Some h \<Rightarrow> h)"

definition storeHealth :: "Account \<Rightarrow> string \<Rightarrow> HealthRecord \<Rightarrow> Account" where
  "storeHealth a modelId h = a\<lparr> health := Some ((healthObject a)(modelId \<mapsto> h)) \<rparr>"

text \<open>The success branch of \<open>recordResult\<close>.\<close>

definition onSuccess ::
  "Env \<Rightarrow> string \<Rightarrow> string \<Rightarrow> HealthRecord \<Rightarrow> State \<Rightarrow> HealthRecord \<times> State" where
  "onSuccess env mail modelId h0 st =
     (let h = h0\<lparr> successCount := successCount h0 + 1, consecutiveFailures := 0,
                   lastSuccess := Some (now env) \<rparr>
      in if disabled h \<and> \<not> manualDisabled h
         then (h\<lparr> disabled := False, disabledReason := None, disabledAt := None \<rparr>,
               snd (recordHealthChange env mail modelId ''recovered''
                      (emptyDetails\<lparr> d_previousState := Some ''disabled'',
                                      d_trigger := Some ''successful_request'' \<rparr>) st))
         else (h, st))"

text \<open>The failure branch of \<open>recordResult\<close>.\<close>

definition onFailure ::
  "Env \<Rightarrow> string \<Rightarrow> string \<Rightarrow> ErrorArg option \<Rightarrow> HealthRecord \<Rightarrow> State
     \<Rightarrow> HealthRecord \<times> State" where
  "onFailure env mail modelId error h0 st =
     (let h = h0\<lparr> failCount := failCount h0 + 1,
                   consecutiveFailures := consecutiveFailures h0 + 1,
                   lastError := Some (mkLastError env error) \<rparr>
      in if autoDisableEnabled (healthConfig st) \<and> \<not> disabled h \<and> \<not> manualDisabled h
            \<and> of_nat (consecutiveFailures h) \<ge> consecutiveFailureThreshold (healthConfig st)
         then
           (let reason = ''Auto: '' @ string_of_nat (consecutiveFailures h)
                           @ '' consecutive failures'';
                h' = h\<lparr> disabled := True, disabledReason := Some reason,
                         disabledAt := Some (now env) \<rparr>
            in (h', snd (recordHealthChange env mail modelId ''disabled''
                          (emptyDetails\<lparr> d_reason := disabledReason h',
                              d_consecutiveFailures := Some (consecutiveFailures h'),
                              d_lastError := lastError h' \<rparr>) st)))
         else (h, st))"

definition recordResult ::
  "Env \<Rightarrow> Account option \<Rightarrow> string \<Rightarrow> bool \<Rightarrow> ErrorArg option \<Rightarrow> State
     \<Rightarrow> RetVal \<times> Account option \<times> State" where
  "recordResult env account modelId success error st =
     (case account of
        None \<Rightarrow> (RNull, None, st)
      | Some a \<Rightarrow>
          (let h0 = healthOrInit a modelId;
               (h1, st1) = (if success then onSuccess env (email a) modelId h0 st
                            else onFailure env (email a) modelId error h0 st);
               h2 = h1\<lparr> healthScore := calculateScore h1 \<rparr>
           in (RHealth h2, Some (storeHealth a modelId h2), st1)))"

definition isModelUsable ::
  "Env \<Rightarrow> Account option \<Rightarrow> string \<Rightarrow> State \<Rightarrow> bool \<times> Account option \<times> State" where
  "isModelUsable env account modelId st =
     (case account of
        None \<Rightarrow> (True, None, st)
      | Some a \<Rightarrow>
          (case lookupHealth (Some a) modelId of
             None \<Rightarrow> (True, Some a, st)
           | Some h \<Rightarrow>
               (case (if disabled h \<and> \<not> manualDisabled h then disabledAt h else None) of
                  None \<Rightarrow> (\<not> disabled h \<and> \<not> manualDisabled h, Some a, st)
                | Some t \<Rightarrow>
                    (let disabledTime = now env - t
                     in if of_int disabledTime > autoRecoveryMs (healthConfig st)
                        then
                          (let h' = h\<lparr> disabled := False, consecutiveFailures := 0,
                                       disabledReason := None, disabledAt := None \<rparr>
                           in (True, Some (storeHealth a modelId h'),
                               snd (recordHealthChange env (email a) modelId ''recovered''
                                      (emptyDetails\<lparr> d_previousState := Some ''disabled'',
                                          d_trigger := Some ''auto_recovery_timeout'',
                                          d_disabledDurationMs := Some disabledTime \<rparr>) st)))
                        else (\<not> disabled h \<and> \<not> manualDisabled h, Some a, st)))))"

definition toggleModel ::
  "Env \<Rightarrow> Account option \<Rightarrow> string \<Rightarrow> bool \<Rightarrow> RetVal \<times> Account option" where
  "toggleModel env account modelId enable =
     (case account of
        None \<Rightarrow> (RNull, None)
      | Some a \<Rightarrow>
          (let h0 = healthOrInit a modelId;
               h1 = h0\<lparr> manualDisabled := \<not> enable \<rparr>;
               h2 = (if enable
                     then h1\<lparr> disabled := False, disabledReason := None, disabledAt := None \<rparr>
                     else h1\<lparr> disabledReason := Some ''Manually disabled'',
                              disabledAt := Some (now env) \<rparr>)
           in (RHealth h2, Some (storeHealth a modelId h2))))"




subsection \<open>The health matrix\<close>

record MatrixCell =
  c_healthScore :: rat
  c_successCount :: nat
  c_failCount :: nat
  c_consecutiveFailures :: nat
  c_disabled :: bool
  c_manualDisabled :: bool
  c_lastError :: "LastError option"
  c_lastSuccess :: "int option"

record AccountData =
  a_email :: string
  a_enabled :: bool
  a_models :: "string \<rightharpoonup> MatrixCell"

record Matrix =
  m_accounts :: "AccountData list"
  m_models :: "string list"
  m_generated :: int

text \<open>The cell written for one model in the inner loop of \<open>buildHealthMatrix\<close>.\<close>

definition matrixCell :: "Account \<Rightarrow> string \<Rightarrow> MatrixCell" where
  "matrixCell account modelId =
     (case lookupHealth (Some account) modelId of
        Some h \<Rightarrow>
          \<lparr> c_healthScore = healthScore h, c_successCount = successCount h,
            c_failCount = failCount h, c_consecutiveFailures = consecutiveFailures h,
            c_disabled = (disabled h \<or> manualDisabled h),
            c_manualDisabled = manualDisabled h,
            c_lastError = lastError h, c_lastSuccess = lastSuccess h \<rparr>
      | None \<Rightarrow>
          \<lparr> c_healthScore = 100, c_successCount = 0, c_failCount = 0,
            c_consecutiveFailures = 0, c_disabled = False, c_manualDisabled = False,
            c_lastError = None, c_lastSuccess = None \<rparr>)"

definition accountData :: "Account \<Rightarrow> string list \<Rightarrow> AccountData" where
  "accountData account modelIds =
     \<lparr> a_email = email account,
       a_enabled = (enabled account \<noteq> Some False),
       a_models = map_of (map (\<lambda>modelId. (modelId, matrixCell account modelId)) modelIds) \<rparr>"

definition buildHealthMatrix :: "Env \<Rightarrow> Account list \<Rightarrow> string list \<Rightarrow> Matrix" where
  "buildHealthMatrix env accounts modelIds =
     \<lparr> m_accounts = map (\<lambda>account. accountData account modelIds) accounts,
       m_models = modelIds,
       m_generated = now env \<rparr>"

subsection \<open>Configuration\<close>

definition getHealthConfig :: "State \<Rightarrow> HealthConfig" where
  "getHealthConfig st = healthConfig st"

text \<open>\<open>Number.isInteger(val)\<close>\<close>

definition jsIsInteger :: "JsVal \<Rightarrow> bool" where
  "jsIsInteger v = (case v of JNum q \<Rightarrow> q = of_int \<lfloor>q\<rfloor> | _ \<Rightarrow> False)"

text \<open>
  The relational comparison \<open>x < y\<close> of two primitive values: two strings are
  compared by their code units; otherwise both sides are converted to numbers, and a
  comparison with NaN is false.  The conversion of a string to a number is the
  parameter \<open>strToNum\<close> (\<open>None\<close> for NaN).
\<close>

fun strLess :: "string \<Rightarrow> string \<Rightarrow> bool" where
  "strLess [] [] = False"
| "strLess [] (y # ys) = True"
| "strLess (x # xs) [] = False"
| "strLess (x # xs) (y # ys) =
     (if (of_char x :: nat) < of_char y then True
      else if (of_char y :: nat) < of_char x then False
      else strLess xs ys)"

definition jsToNumber :: "(string \<Rightarrow> rat option) \<Rightarrow> JsVal \<Rightarrow> rat option" where
  "jsToNumber strToNum v =
     (case v of JNull \<Rightarrow> Some 0 | JBool b \<Rightarrow> Some (if b then 1 else 0)
      | JNum q \<Rightarrow> Some q | JStr s \<Rightarrow> strToNum s)"

definition jsLess :: "(string \<Rightarrow> rat option) \<Rightarrow> JsVal \<Rightarrow> JsVal \<Rightarrow> bool" where
  "jsLess strToNum x y =
     (case (x, y) of
        (JStr s, JStr t) \<Rightarrow> strLess s t
      | _ \<Rightarrow> (case (jsToNumber strToNum x, jsToNumber strToNum y) of
                (Some a, Some b) \<Rightarrow> a < b
              | _ \<Rightarrow> False))"

text \<open>\<open>a ?? b\<close> with a number as the fallback.\<close>

definition nullish :: "JsVal option \<Rightarrow> rat \<Rightarrow> JsVal" where
  "nullish v d = (case v of None \<Rightarrow> JNum d | Some JNull \<Rightarrow> JNum d | Some x \<Rightarrow> x)"

text \<open>The checks of \<open>validateHealthConfig\<close>, in the order of the source.\<close>

definition checkConsecutiveFailureThreshold :: "ConfigPatch \<Rightarrow> string list" where
  "checkConsecutiveFailureThreshold config =
     (case p_consecutiveFailureThreshold config of
        None \<Rightarrow> []
      | Some v \<Rightarrow>
          if \<not> jsIsInteger v \<or> (case v of JNum q \<Rightarrow> q < 1 | _ \<Rightarrow> False)
          then [''consecutiveFailureThreshold must be a positive integer (>= 1)'']
          else [])"

definition checkWarningThreshold :: "ConfigPatch \<Rightarrow> string list" where
  "checkWarningThreshold config =
     (case p_warningThreshold config of
        None \<Rightarrow> []
      | Some v \<Rightarrow>
          if (case v of JNum q \<Rightarrow> q < 0 \<or> q > 100 | _ \<Rightarrow> True)
          then [''warningThreshold must be a number between 0 and 100'']
          else [])"

definition checkCriticalThreshold :: "ConfigPatch \<Rightarrow> string list" where
  "checkCriticalThreshold config =
     (case p_criticalThreshold config of
        None \<Rightarrow> []
      | Some v \<Rightarrow>
          if (case v of JNum q \<Rightarrow> q < 0 \<or> q > 100 | _ \<Rightarrow> True)
          then [''criticalThreshold must be a number between 0 and 100'']
          else [])"

definition checkThresholdOrder ::
  "(string \<Rightarrow> rat option) \<Rightarrow> HealthConfig \<Rightarrow> ConfigPatch \<Rightarrow> string list" where
  "checkThresholdOrder strToNum stored config =
     (let warning = nullish (p_warningThreshold config) (warningThreshold stored);
          critical = nullish (p_criticalThreshold config) (criticalThreshold stored)
      in if jsLess strToNum warning critical
         then [''warningThreshold must be greater than or equal to criticalThreshold'']
         else [])"

definition checkAutoRecoveryMs :: "ConfigPatch \<Rightarrow> string list" where
  "checkAutoRecoveryMs config =
     (case p_autoRecoveryMs config of
        None \<Rightarrow> []
      | Some v \<Rightarrow>
          if (case v of JNum q \<Rightarrow> q \<le> 0 | _ \<Rightarrow> True)
          then [''autoRecoveryMs must be a positive number'']
          else [])"

definition checkAutoDisableEnabled :: "ConfigPatch \<Rightarrow> string list" where
  "checkAutoDisableEnabled config =
     (case p_autoDisableEnabled config of
        None \<Rightarrow> []
      | Some v \<Rightarrow>
          if (case v of JBool b \<Rightarrow> False | _ \<Rightarrow> True)
          then [''autoDisableEnabled must be a boolean'']
          else [])"

definition checkEventMaxCount :: "ConfigPatch \<Rightarrow> string list" where
  "checkEventMaxCount config =
     (case p_eventMaxCount config of
        None \<Rightarrow> []
      | Some v \<Rightarrow>
          if \<not> jsIsInteger v \<or> (case v of JNum q \<Rightarrow> q < 1000 \<or> q > 50000 | _ \<Rightarrow> False)
          then [''eventMaxCount must be an integer between 1000 and 50000'']
          else [])"

definition checkEventRetentionDays :: "ConfigPatch \<Rightarrow> string list" where
  "checkEventRetentionDays config =
     (case p_eventRetentionDays config of
        None \<Rightarrow> []
      | Some v \<Rightarrow>
          if \<not> jsIsInteger v \<or> (case v of JNum q \<Rightarrow> q < 1 \<or> q > 30 | _ \<Rightarrow> False)
          then [''eventRetentionDays must be an integer between 1 and 30'']
          else [])"

text \<open>\<open>validateHealthConfig\<close> returns \<open>{ valid, errors }\<close>.\<close>

definition validateHealthConfig ::
  "(string \<Rightarrow> rat option) \<Rightarrow> HealthConfig \<Rightarrow> ConfigPatch \<Rightarrow> bool \<times> string list" where
  "validateHealthConfig strToNum stored config =
     (let errors =
            checkConsecutiveFailureThreshold config
            @ checkWarningThreshold config
            @ checkCriticalThreshold config
            @ checkThresholdOrder strToNum stored config
            @ checkAutoRecoveryMs config
            @ checkAutoDisableEnabled config
            @ checkEventMaxCount config
            @ checkEventRetentionDays config
      in (errors = [], errors))"

text \<open>
  The spread \<open>{ ...healthConfig, ...newConfig }\<close>: a key of the patch replaces the
  stored one.  The stored fields are typed; a value of the wrong type never reaches the
  spread, because validation fails on it first.
\<close>

definition spreadNum :: "rat \<Rightarrow> JsVal option \<Rightarrow> rat" where
  "spreadNum old v = (case v of Some (JNum q) \<Rightarrow> q | _ \<Rightarrow> old)"

definition spreadBool :: "bool \<Rightarrow> JsVal option \<Rightarrow> bool" where
  "spreadBool old v = (case v of Some (JBool b) \<Rightarrow> b | _ \<Rightarrow> old)"

fun setKey :: "string \<Rightarrow> JsVal \<Rightarrow> (string \<times> JsVal) list \<Rightarrow> (string \<times> JsVal) list" where
  "setKey k v [] = [(k, v)]"
| "setKey k v ((k', v') # kvs) =
     (if k' = k then (k, v) # kvs else (k', v') # setKey k v kvs)"

definition spreadKeys ::
  "(string \<times> JsVal) list \<Rightarrow> (string \<times> JsVal) list \<Rightarrow> (string \<times> JsVal) list" where
  "spreadKeys old new = foldl (\<lambda>acc (k, v). setKey k v acc) old new"

definition spreadConfig :: "HealthConfig \<Rightarrow> ConfigPatch \<Rightarrow> HealthConfig" where
  "spreadConfig stored newConfig =
     \<lparr> consecutiveFailureThreshold =
         spreadNum (consecutiveFailureThreshold stored) (p_consecutiveFailureThreshold newConfig),
       warningThreshold = spreadNum (warningThreshold stored) (p_warningThreshold newConfig),
       criticalThreshold = spreadNum (criticalThreshold stored) (p_criticalThreshold newConfig),
       autoDisableEnabled =
         spreadBool (autoDisableEnabled stored) (p_autoDisableEnabled newConfig),
       autoRecoveryMs = spreadNum (autoRecoveryMs stored) (p_autoRecoveryMs newConfig),
       eventMaxCount = spreadNum (eventMaxCount stored) (p_eventMaxCount newConfig),
       eventRetentionDays =
         spreadNum (eventRetentionDays stored) (p_eventRetentionDays newConfig),
       otherKeys = spreadKeys (otherKeys stored) (p_otherKeys newConfig) \<rparr>"

text \<open>
  \<open>setHealthConfig\<close> returns \<open>{ error: true, errors }\<close> (\<open>Inl\<close>) or a copy of
  the new configuration (\<open>Inr\<close>).
\<close>

definition setHealthConfig ::
  "(string \<Rightarrow> rat option) \<Rightarrow> ConfigPatch \<Rightarrow> State \<Rightarrow> (string list + HealthConfig) \<times> State" where
  "setHealthConfig strToNum newConfig st =
     (let (valid, errors) = validateHealthConfig strToNum (healthConfig st) newConfig
      in if \<not> valid then (Inl errors, st)
         else (let cfg = spreadConfig (healthConfig st) newConfig
               in (Inr cfg, st\<lparr> healthConfig := cfg, savedConfig := Some cfg \<rparr>)))"

section \<open>Runs and specification-level definitions\<close>

subsection \<open>Runs of the tracker\<close>

text \<open>
  Repeated calls of \<open>recordResult\<close> on one account and model, each with its own
  clock reading, outcome and error.
\<close>

fun recordResults ::
  "(Env \<times> bool \<times> ErrorArg option) list \<Rightarrow> Account option \<Rightarrow> string \<Rightarrow> State
     \<Rightarrow> Account option \<times> State" where
  "recordResults [] account modelId st = (account, st)"
| "recordResults ((env, success, error) # calls) account modelId st =
     (case recordResult env account modelId success error st of
        (r, account', st') \<Rightarrow> recordResults calls account' modelId st')"



subsection \<open>The score formula of the specification\<close>



subsection \<open>The recovery condition of the specification\<close>

text \<open>
  Section 4.3: \<open>isModelUsable\<close> recovers a record that is auto-disabled, not manually
  disabled, and for which more than \<open>autoRecoveryMs\<close> have passed since
  \<open>disabledAt\<close>.
\<close>

definition recoveryDue :: "Env \<Rightarrow> HealthConfig \<Rightarrow> HealthRecord \<Rightarrow> bool" where
  "recoveryDue env cfg h =
     (disabled h \<and> \<not> manualDisabled h \<and>
      (case disabledAt h of None \<Rightarrow> False
       | Some t \<Rightarrow> of_int (now env - t) > autoRecoveryMs cfg))"

subsection \<open>The window of the statistics\<close>


subsection \<open>Section 3 of the specification as a predicate on patches\<close>

text \<open>
  The checks of a configuration patch, named by the field they guard, and the message
  \<open>validateHealthConfig\<close> pushes for each.
\<close>

datatype ConfigField =
  ConsecutiveFailureThreshold | WarningThreshold | CriticalThreshold | ThresholdOrder
  | AutoRecoveryMs | AutoDisableEnabled | EventMaxCount | EventRetentionDays

definition fieldMessage :: "ConfigField \<Rightarrow> string" where
  "fieldMessage f =
     (case f of
        ConsecutiveFailureThreshold \<Rightarrow>
          ''consecutiveFailureThreshold must be a positive integer (>= 1)''
      | WarningThreshold \<Rightarrow> ''warningThreshold must be a number between 0 and 100''
      | CriticalThreshold \<Rightarrow> ''criticalThreshold must be a number between 0 and 100''
      | ThresholdOrder \<Rightarrow>
          ''warningThreshold must be greater than or equal to criticalThreshold''
      | AutoRecoveryMs \<Rightarrow> ''autoRecoveryMs must be a positive number''
      | AutoDisableEnabled \<Rightarrow> ''autoDisableEnabled must be a boolean''
      | EventMaxCount \<Rightarrow> ''eventMaxCount must be an integer between 1000 and 50000''
      | EventRetentionDays \<Rightarrow> ''eventRetentionDays must be an integer between 1 and 30'')"

text \<open>
  The ranges of section 3: \<open>consecutiveFailureThreshold\<close> is an integer at least 1;
  \<open>warningThreshold\<close> and \<open>criticalThreshold\<close> lie in 0 to 100;
  \<open>autoDisableEnabled\<close> is a boolean; \<open>autoRecoveryMs\<close> is positive;
  \<open>eventMaxCount\<close> lies in 1000 to 50000 and \<open>eventRetentionDays\<close> in 1 to 30.
  A key the patch does not have is not outside its range.
\<close>

definition inRange :: "rat \<Rightarrow> rat \<Rightarrow> JsVal \<Rightarrow> bool" where
  "inRange lo hi v = (case v of JNum q \<Rightarrow> lo \<le> q \<and> q \<le> hi | _ \<Rightarrow> False)"

definition isPositiveInteger :: "JsVal \<Rightarrow> bool" where
  "isPositiveInteger v = (case v of JNum q \<Rightarrow> q = of_int \<lfloor>q\<rfloor> \<and> 1 \<le> q | _ \<Rightarrow> False)"

definition isPositiveNumber :: "JsVal \<Rightarrow> bool" where
  "isPositiveNumber v = (case v of JNum q \<Rightarrow> 0 < q | _ \<Rightarrow> False)"

definition isBoolean :: "JsVal \<Rightarrow> bool" where
  "isBoolean v = (case v of JBool b \<Rightarrow> True | _ \<Rightarrow> False)"

definition outside :: "(JsVal \<Rightarrow> bool) \<Rightarrow> JsVal option \<Rightarrow> bool" where
  "outside ok v = (case v of None \<Rightarrow> False | Some x \<Rightarrow> \<not> ok x)"

text \<open>
  The effective value of a threshold: the number the patch gives, or the stored one when
  the patch has no such key.  The order of the thresholds fails when the effective
  warning threshold is strictly less than the effective critical one.
\<close>

definition effective :: "JsVal option \<Rightarrow> rat \<Rightarrow> rat option" where
  "effective v stored =
     (case v of None \<Rightarrow> Some stored | Some (JNum q) \<Rightarrow> Some q | Some _ \<Rightarrow> None)"

definition specFailing :: "HealthConfig \<Rightarrow> ConfigPatch \<Rightarrow> ConfigField \<Rightarrow> bool" where
  "specFailing stored p f =
     (case f of
        ConsecutiveFailureThreshold \<Rightarrow>
          outside isPositiveInteger (p_consecutiveFailureThreshold p)
      | WarningThreshold \<Rightarrow> outside (inRange 0 100) (p_warningThreshold p)
      | CriticalThreshold \<Rightarrow> outside (inRange 0 100) (p_criticalThreshold p)
      | ThresholdOrder \<Rightarrow>
          (case (effective (p_warningThreshold p) (warningThreshold stored),
                 effective (p_criticalThreshold p) (criticalThreshold stored)) of
             (Some w, Some c) \<Rightarrow> w < c
           | _ \<Rightarrow> False)
      | AutoRecoveryMs \<Rightarrow> outside isPositiveNumber (p_autoRecoveryMs p)
      | AutoDisableEnabled \<Rightarrow> outside isBoolean (p_autoDisableEnabled p)
      | EventMaxCount \<Rightarrow> outside (inRange 1000 50000) (p_eventMaxCount p)
      | EventRetentionDays \<Rightarrow> outside (inRange 1 30) (p_eventRetentionDays p))"

text \<open>
  The whole patch is applied: every validated key of the patch holds the patch's value
  in the new configuration, every other validated key keeps the stored value, and the
  remaining keys are those of the patch (the last occurrence of a key) over the stored
  ones.
\<close>

definition givenNum :: "JsVal option \<Rightarrow> rat \<Rightarrow> rat \<Rightarrow> bool" where
  "givenNum v old new = (case v of None \<Rightarrow> new = old | Some x \<Rightarrow> x = JNum new)"

definition givenBool :: "JsVal option \<Rightarrow> bool \<Rightarrow> bool \<Rightarrow> bool" where
  "givenBool v old new = (case v of None \<Rightarrow> new = old | Some x \<Rightarrow> x = JBool new)"

definition patchApplied :: "HealthConfig \<Rightarrow> ConfigPatch \<Rightarrow> HealthConfig \<Rightarrow> bool" where
  "patchApplied stored p cfg =
     (givenNum (p_consecutiveFailureThreshold p) (consecutiveFailureThreshold stored)
        (consecutiveFailureThreshold cfg)
      \<and> givenNum (p_warningThreshold p) (warningThreshold stored) (warningThreshold cfg)
      \<and> givenNum (p_criticalThreshold p) (criticalThreshold stored) (criticalThreshold cfg)
      \<and> givenNum (p_autoRecoveryMs p) (autoRecoveryMs stored) (autoRecoveryMs cfg)
      \<and> givenBool (p_autoDisableEnabled p) (autoDisableEnabled stored) (autoDisableEnabled cfg)
      \<and> givenNum (p_eventMaxCount p) (eventMaxCount stored) (eventMaxCount cfg)
      \<and> givenNum (p_eventRetentionDays p) (eventRetentionDays stored) (eventRetentionDays cfg)
      \<and> (\<forall>k. map_of (otherKeys cfg) k =
              (case map_of (rev (p_otherKeys p)) k of
                 Some v \<Rightarrow> Some v
               | None \<Rightarrow> map_of (otherKeys stored) k)))"

subsection \<open>Runs of the event manager\<close>








subsection \<open>Concrete states, accounts and calls\<close>

text \<open>A module just loaded, with the default configuration and no subscriber.\<close>

definition initialState :: State where
  "initialState = \<lparr> events = [], isDirty = False, sseClients = [],
     responses = (\<lambda>c. \<lparr> headers = [], written = [], failing = False \<rparr>),
     healthConfig = DEFAULT_CONFIG, savedConfig = None \<rparr>"

definition accountA :: Account where
  "accountA = \<lparr> email = ''a@example.com'', enabled = Some True, health = None \<rparr>"



text \<open>
  Five failures in a row (the default threshold), four failures, and five successes
  followed by five failures.
\<close>

definition fiveFailures :: "(Env \<times> bool \<times> ErrorArg option) list" where
  "fiveFailures =
     map (\<lambda>t. (\<lparr> now = t, rnd = ''0badcafe'' \<rparr>, False, None)) [1, 2, 3, 4, 5]"

definition fourFailures :: "(Env \<times> bool \<times> ErrorArg option) list" where
  "fourFailures =
     map (\<lambda>t. (\<lparr> now = t, rnd = ''0badcafe'' \<rparr>, False, None)) [1, 2, 3, 4]"

definition fiveThenFive :: "(Env \<times> bool \<times> ErrorArg option) list" where
  "fiveThenFive =
     map (\<lambda>t. (\<lparr> now = t, rnd = ''00c0ffee'' \<rparr>, True, None)) [1, 2, 3, 4, 5]
     @ map (\<lambda>t. (\<lparr> now = t, rnd = ''00c0ffee'' \<rparr>, False, None)) [6, 7, 8, 9, 10]"

text \<open>The record that five failures at the times 1 to 5 leave behind.\<close>

definition disabledRecord :: HealthRecord where
  "disabledRecord = \<lparr> successCount = 0, failCount = 5, consecutiveFailures = 5,
     lastSuccess = None,
     lastError = Some \<lparr> le_message = ''Unknown error'', le_code = None, le_timestamp = 5 \<rparr>,
     healthScore = 0, disabled = True, manualDisabled = False,
     disabledReason = Some ''Auto: 5 consecutive failures'',
     disabledAt = Some 5 \<rparr>"

definition accountAfterFiveFailures :: Account where
  "accountAfterFiveFailures =
     (case fst (recordResults fiveFailures (Some accountA) ''gemini-3-flash'' initialState) of
        Some a \<Rightarrow> a | None \<Rightarrow> accountA)"

definition stateAfterFiveFailures :: State where
  "stateAfterFiveFailures =
     snd (recordResults fiveFailures (Some accountA) ''gemini-3-flash'' initialState)"

definition accountAfterFourFailures :: Account where
  "accountAfterFourFailures =
     (case fst (recordResults fourFailures (Some accountA) ''gemini-3-flash'' initialState) of
        Some a \<Rightarrow> a | None \<Rightarrow> accountA)"

text \<open>One millisecond, and one day and a millisecond, after the record was disabled.\<close>

definition envSoon :: Env where
  "envSoon = \<lparr> now = 6, rnd = ''5ca1ab1e'' \<rparr>"

definition envLate :: Env where
  "envLate = \<lparr> now = 5 + 24 * 60 * 60 * 1000 + 1, rnd = ''5ca1ab1e'' \<rparr>"

text \<open>An untouched pair that an operator switches off at time 7.\<close>

definition manuallyDisabledRecord :: HealthRecord where
  "manuallyDisabledRecord = initHealth\<lparr> manualDisabled := True,
     disabledReason := Some ''Manually disabled'', disabledAt := Some 7 \<rparr>"

definition accountManual :: Account where
  "accountManual = \<lparr> email = ''b@example.com'', enabled = None,
     health = Some [''gemini-3-flash'' \<mapsto> manuallyDisabledRecord] \<rparr>"



text \<open>
  Patches: \<open>{ quotaThreshold: 0.9 }\<close>, \<open>{ warningThreshold: 10, eventMaxCount: 500 }\<close>
  and \<open>{ warningThreshold: 50, autoDisableEnabled: false }\<close>.
\<close>

definition emptyPatch :: ConfigPatch where
  "emptyPatch = \<lparr> p_consecutiveFailureThreshold = None, p_warningThreshold = None,
     p_criticalThreshold = None, p_autoRecoveryMs = None, p_autoDisableEnabled = None,
     p_eventMaxCount = None, p_eventRetentionDays = None, p_otherKeys = [] \<rparr>"

definition quotaPatch :: ConfigPatch where
  "quotaPatch = emptyPatch\<lparr> p_otherKeys := [(''quotaThreshold'', JNum (9 / 10))] \<rparr>"

definition lowWarningPatch :: ConfigPatch where
  "lowWarningPatch = emptyPatch\<lparr> p_warningThreshold := Some (JNum 10),
     p_eventMaxCount := Some (JNum 500) \<rparr>"

definition goodPatch :: ConfigPatch where
  "goodPatch = emptyPatch\<lparr> p_warningThreshold := Some (JNum 50),
     p_autoDisableEnabled := Some (JBool False) \<rparr>"

text \<open>A string-to-number conversion for patches without strings.\<close>

definition noStrings :: "string \<Rightarrow> rat option" where
  "noStrings s = None"








section \<open>Lemmas\<close>

subsection \<open>Recording an event\<close>

lemma broadcast_events: "events (broadcast e st) = events st"
  by (simp add: broadcast_def split: prod.splits)

lemma broadcast_healthConfig: "healthConfig (broadcast e st) = healthConfig st"
  by (simp add: broadcast_def split: prod.splits)

lemma recordEvent_events:
  "events (snd (recordEvent env ed st)) = events st @ [mkEvent env ed]"
  by (simp add: recordEvent_def Let_def broadcast_events)

lemma recordEvent_fst: "fst (recordEvent env ed st) = mkEvent env ed"
  by (simp add: recordEvent_def Let_def)

lemma recordEvent_healthConfig:
  "healthConfig (snd (recordEvent env ed st)) = healthConfig st"
  by (simp add: recordEvent_def Let_def broadcast_healthConfig)

lemma recordHealthChange_events:
  "events (snd (recordHealthChange env acc mo ch det st))
     = events st @ [fst (recordHealthChange env acc mo ch det st)]"
  by (simp add: recordHealthChange_def Let_def recordEvent_events recordEvent_fst)

lemma recordHealthChange_healthConfig:
  "healthConfig (snd (recordHealthChange env acc mo ch det st)) = healthConfig st"
  by (simp add: recordHealthChange_def Let_def recordEvent_healthConfig)

lemma recordHealthChange_event:
  "fst (recordHealthChange env acc mo ch det st) =
     \<lparr> ev_id = (now env, rnd env), ev_timestamp = now env, ev_type = HEALTH_CHANGE,
       ev_requestId = None, ev_account = orNull (Some acc), ev_model = orNull (Some mo),
       ev_severity = (if ch = ''disabled'' then ERROR else INFO),
       ev_message = ''Health '' @ ch @ '' for '' @ acc @ '' on '' @ mo,
       ev_details = det\<lparr> d_change := Some ch \<rparr> \<rparr>"
  by (simp add: recordHealthChange_def Let_def recordEvent_fst mkEvent_def generateEventId_def
      orNull_def)

subsection \<open>Health records of an account\<close>

lemma lookup_storeHealth:
  "lookupHealth (Some (storeHealth a m h)) m' =
     (if m' = m then Some h else lookupHealth (Some a) m')"
  by (simp add: lookupHealth_def storeHealth_def healthObject_def split: option.splits)



lemma lookupHealth_healthOrInit:
  "lookupHealth (Some a) m = Some h \<Longrightarrow> healthOrInit a m = h"
  by (simp add: lookupHealth_def healthOrInit_def healthObject_def split: option.splits)


subsection \<open>The score\<close>



lemma calculateScore_cong:
  "successCount h = successCount h' \<Longrightarrow> failCount h = failCount h' \<Longrightarrow>
   consecutiveFailures h = consecutiveFailures h' \<Longrightarrow> calculateScore h = calculateScore h'"
  by (simp add: calculateScore_def)




subsection \<open>One call of \<open>recordResult\<close>\<close>




lemma onSuccess_plain:
  "\<not> (disabled h0 \<and> \<not> manualDisabled h0) \<Longrightarrow>
   onSuccess env mail m h0 st =
     (h0\<lparr> successCount := successCount h0 + 1, consecutiveFailures := 0,
          lastSuccess := Some (now env) \<rparr>, st)"
  by (auto simp: onSuccess_def Let_def)

lemma onSuccess_recover:
  "disabled h0 \<Longrightarrow> \<not> manualDisabled h0 \<Longrightarrow>
   onSuccess env mail m h0 st =
     (h0\<lparr> successCount := successCount h0 + 1, consecutiveFailures := 0,
          lastSuccess := Some (now env), disabled := False, disabledReason := None,
          disabledAt := None \<rparr>,
      snd (recordHealthChange env mail m ''recovered''
             (emptyDetails\<lparr> d_previousState := Some ''disabled'',
                             d_trigger := Some ''successful_request'' \<rparr>) st))"
  by (simp add: onSuccess_def Let_def)

lemma recordResult_success:
  assumes "lookupHealth (Some a) m = Some h"
  shows "\<exists>r a' st' emitted.
           recordResult env (Some a) m True err st = (RHealth r, Some a', st')
         \<and> lookupHealth (Some a') m = Some r
         \<and> consecutiveFailures r = 0
         \<and> manualDisabled r = manualDisabled h
         \<and> disabled r = (disabled h \<and> manualDisabled h)
         \<and> events st' = events st @ emitted
         \<and> map (\<lambda>e. (ev_type e, d_change (ev_details e), d_trigger (ev_details e),
                       ev_account e, ev_model e, ev_severity e)) emitted
             = (if disabled h \<and> \<not> manualDisabled h
                then [(HEALTH_CHANGE, Some ''recovered'', Some ''successful_request'',
                       orNull (Some (email a)), orNull (Some m), INFO)]
                else [])"
proof -
  have h0: "healthOrInit a m = h"
    using assms by (rule lookupHealth_healthOrInit)
  show ?thesis
  proof (cases "disabled h \<and> \<not> manualDisabled h")
    case False
    define h1 where "h1 = h\<lparr> successCount := successCount h + 1, consecutiveFailures := 0,
          lastSuccess := Some (now env) \<rparr>"
    define r where "r = h1\<lparr> healthScore := calculateScore h1 \<rparr>"
    have f: "onSuccess env (email a) m h st = (h1, st)"
      using False by (simp add: onSuccess_plain h1_def)
    have step: "recordResult env (Some a) m True err st
        = (RHealth r, Some (storeHealth a m r), st)"
      using f by (simp add: recordResult_def Let_def h0 r_def)
    have r: "consecutiveFailures r = 0" "manualDisabled r = manualDisabled h"
        "disabled r = (disabled h \<and> manualDisabled h)"
      using False by (auto simp: r_def h1_def)
    show ?thesis
      apply (rule exI[of _ r], rule exI[of _ "storeHealth a m r"], rule exI[of _ st],
          rule exI[of _ "[]"])
      using step r False by (simp add: lookup_storeHealth)
  next
    case True
    define det where "det = emptyDetails\<lparr> d_previousState := Some ''disabled'',
                             d_trigger := Some ''successful_request'' \<rparr>"
    define h1 where "h1 = h\<lparr> successCount := successCount h + 1, consecutiveFailures := 0,
          lastSuccess := Some (now env), disabled := False, disabledReason := None,
          disabledAt := None \<rparr>"
    define r where "r = h1\<lparr> healthScore := calculateScore h1 \<rparr>"
    define st' where "st' = snd (recordHealthChange env (email a) m ''recovered'' det st)"
    define e where "e = fst (recordHealthChange env (email a) m ''recovered'' det st)"
    have f: "onSuccess env (email a) m h st = (h1, st')"
      using True by (simp add: onSuccess_recover h1_def st'_def det_def)
    have step: "recordResult env (Some a) m True err st
        = (RHealth r, Some (storeHealth a m r), st')"
      using f by (simp add: recordResult_def Let_def h0 r_def)
    have r: "consecutiveFailures r = 0" "manualDisabled r = manualDisabled h"
        "disabled r = (disabled h \<and> manualDisabled h)"
      using True by (auto simp: r_def h1_def)
    have ev: "events st' = events st @ [e]"
      by (simp add: st'_def e_def recordHealthChange_events)
    have e: "(ev_type e, d_change (ev_details e), d_trigger (ev_details e),
                       ev_account e, ev_model e, ev_severity e)
        = (HEALTH_CHANGE, Some ''recovered'', Some ''successful_request'',
                       orNull (Some (email a)), orNull (Some m), INFO)"
      by (simp add: e_def recordHealthChange_event det_def emptyDetails_def)
    show ?thesis
      apply (rule exI[of _ r], rule exI[of _ "storeHealth a m r"], rule exI[of _ st'],
          rule exI[of _ "[e]"])
      using step r True ev e by (simp add: lookup_storeHealth)
  qed
qed

lemma onSuccess_healthConfig:
  "healthConfig (snd (onSuccess env mail m h st)) = healthConfig st"
  by (simp add: onSuccess_def Let_def recordHealthChange_healthConfig)

lemma onFailure_healthConfig:
  "healthConfig (snd (onFailure env mail m err h st)) = healthConfig st"
  by (simp add: onFailure_def Let_def recordHealthChange_healthConfig)

lemma recordResult_healthConfig:
  "healthConfig (snd (snd (recordResult env account m s err st))) = healthConfig st"
proof (cases account)
  case None
  then show ?thesis by (simp add: recordResult_def)
next
  case (Some a)
  obtain h1 st1 where b: "(if s then onSuccess env (email a) m (healthOrInit a m) st
       else onFailure env (email a) m err (healthOrInit a m) st) = (h1, st1)"
    by (cases "if s then onSuccess env (email a) m (healthOrInit a m) st
       else onFailure env (email a) m err (healthOrInit a m) st")
  have "healthConfig st1 = healthConfig st"
    using b onSuccess_healthConfig[of env "email a" m "healthOrInit a m" st]
      onFailure_healthConfig[of env "email a" m err "healthOrInit a m" st]
    by (cases s) auto
  then show ?thesis
    by (simp add: recordResult_def Some Let_def b)
qed

subsection \<open>The score is kept in step\<close>





subsection \<open>Several calls of \<open>recordResult\<close>\<close>



lemma recordResults_healthConfig:
  "healthConfig (snd (recordResults calls account m st)) = healthConfig st"
proof (induction calls arbitrary: account st)
  case Nil
  then show ?case by simp
next
  case (Cons c calls)
  obtain env s err where c: "c = (env, s, err)" by (cases c)
  obtain r a1 st1 where step: "recordResult env account m s err st = (r, a1, st1)"
    by (cases "recordResult env account m s err st")
  have "healthConfig st1 = healthConfig st"
    using recordResult_healthConfig[of env account m s err st] by (simp add: step)
  then show ?case
    using Cons.IH[of a1 st1] by (simp add: c step)
qed


subsection \<open>\<open>isModelUsable\<close>, \<open>toggleModel\<close> and the matrix\<close>

lemma isModelUsable_no_record:
  "lookupHealth account m = None \<Longrightarrow> isModelUsable env account m st = (True, account, st)"
  by (cases account) (simp_all add: isModelUsable_def)

lemma isModelUsable_not_due:
  "lookupHealth (Some a) m = Some h \<Longrightarrow> \<not> recoveryDue env (healthConfig st) h \<Longrightarrow>
   isModelUsable env (Some a) m st = (\<not> disabled h \<and> \<not> manualDisabled h, Some a, st)"
  by (auto simp: isModelUsable_def recoveryDue_def Let_def split: option.splits)

lemma isModelUsable_due:
  assumes "lookupHealth (Some a) m = Some h" "recoveryDue env (healthConfig st) h"
  shows "\<exists>a' st' r e.
           isModelUsable env (Some a) m st = (True, Some a', st')
         \<and> lookupHealth (Some a') m = Some r
         \<and> \<not> disabled r \<and> consecutiveFailures r = 0
         \<and> manualDisabled r = manualDisabled h
         \<and> events st' = events st @ [e]
         \<and> ev_type e = HEALTH_CHANGE \<and> d_change (ev_details e) = Some ''recovered''
         \<and> d_trigger (ev_details e) = Some ''auto_recovery_timeout''
         \<and> ev_account e = orNull (Some (email a)) \<and> ev_model e = orNull (Some m)"
proof -
  from assms(2) obtain t where t: "disabledAt h = Some t" "disabled h" "\<not> manualDisabled h"
      "of_int (now env - t) > autoRecoveryMs (healthConfig st)"
    by (auto simp: recoveryDue_def split: option.splits)
  define det where "det = emptyDetails\<lparr> d_previousState := Some ''disabled'',
      d_trigger := Some ''auto_recovery_timeout'',
      d_disabledDurationMs := Some (now env - t) \<rparr>"
  define r where "r = h\<lparr> disabled := False, consecutiveFailures := 0,
      disabledReason := None, disabledAt := None \<rparr>"
  define st' where "st' = snd (recordHealthChange env (email a) m ''recovered'' det st)"
  define e where "e = fst (recordHealthChange env (email a) m ''recovered'' det st)"
  have step: "isModelUsable env (Some a) m st = (True, Some (storeHealth a m r), st')"
    using assms(1) t by (simp add: isModelUsable_def Let_def r_def st'_def det_def)
  have ev: "events st' = events st @ [e]"
    by (simp add: st'_def e_def recordHealthChange_events)
  have e: "ev_type e = HEALTH_CHANGE" "d_change (ev_details e) = Some ''recovered''"
      "d_trigger (ev_details e) = Some ''auto_recovery_timeout''"
      "ev_account e = orNull (Some (email a))" "ev_model e = orNull (Some m)"
    by (simp_all add: e_def recordHealthChange_event det_def)
  have r: "\<not> disabled r" "consecutiveFailures r = 0" "manualDisabled r = manualDisabled h"
    by (simp_all add: r_def)
  show ?thesis
    apply (rule exI[of _ "storeHealth a m r"], rule exI[of _ st'], rule exI[of _ r],
        rule exI[of _ e])
    using step ev e r by (simp add: lookup_storeHealth)
qed

lemma toggleModel_off:
  "\<exists>h. toggleModel env (Some b) m False = (RHealth h, Some (storeHealth b m h))
       \<and> manualDisabled h"
  by (simp add: toggleModel_def Let_def)

lemma map_of_cells:
  "m \<in> set modelIds \<Longrightarrow> map_of (map (\<lambda>k. (k, f k)) modelIds) m = Some (f m)"
  by (induction modelIds) auto

text \<open>
  The recovery inside \<open>isModelUsable\<close> resets \<open>consecutiveFailures\<close> and keeps the
  stored score.  After five successes and five failures the stored score is 20; with
  the streak reset the formula gives 50.  This is why \<open>isModelUsable\<close> is not a step of
  \<open>trackerReachable\<close>.
\<close>

lemma isModelUsable_keeps_stored_score:
  assumes "lookupHealth (Some a) m = Some h" "recoveryDue env (healthConfig st) h"
  shows "\<exists>r. lookupHealth (fst (snd (isModelUsable env (Some a) m st))) m = Some r
          \<and> healthScore r = healthScore h
          \<and> calculateScore r = calculateScore (h\<lparr> consecutiveFailures := 0 \<rparr>)"
proof -
  from assms(2) obtain t where t: "disabledAt h = Some t" "disabled h" "\<not> manualDisabled h"
      "of_int (now env - t) > autoRecoveryMs (healthConfig st)"
    by (auto simp: recoveryDue_def split: option.splits)
  define r where "r = h\<lparr> disabled := False, consecutiveFailures := 0,
      disabledReason := None, disabledAt := None \<rparr>"
  have "fst (snd (isModelUsable env (Some a) m st)) = Some (storeHealth a m r)"
    using assms(1) t by (simp add: isModelUsable_def Let_def r_def)
  moreover have "healthScore r = healthScore h" by (simp add: r_def)
  moreover have "calculateScore r = calculateScore (h\<lparr> consecutiveFailures := 0 \<rparr>)"
    by (rule calculateScore_cong) (simp_all add: r_def)
  ultimately show ?thesis by (simp add: lookup_storeHealth)
qed

lemma stale_score_example:
  "healthScore (h\<lparr> successCount := 5, failCount := 5, consecutiveFailures := 5,
       healthScore := 20 \<rparr>) = 20
   \<and> calculateScore (h\<lparr> successCount := 5, failCount := 5, consecutiveFailures := 5 \<rparr>) = 20
   \<and> calculateScore (h\<lparr> successCount := 5, failCount := 5, consecutiveFailures := 0 \<rparr>) = 50"
  by (simp add: calculateScore_def)

subsection \<open>The concrete runs\<close>


lemma digit_five: "char_of (53::nat) = CHR ''5''"
  by code_simp


lemma fiveFailures_run:
  "lookupHealth (fst (recordResults fiveFailures (Some accountA) ''gemini-3-flash'' initialState))
        ''gemini-3-flash'' = Some disabledRecord"
  by (simp add: fiveFailures_def accountA_def initialState_def recordResult_def Let_def
      healthOrInit_def healthObject_def storeHealth_def lookupHealth_def initHealth_def
      onSuccess_def onFailure_def calculateScore_def DEFAULT_CONFIG_def disabledRecord_def
      mkLastError_def digit_five)

lemma fourFailures_run:
  "map_option (\<lambda>r. (healthScore r, disabled r, manualDisabled r))
    (lookupHealth (fst (recordResults fourFailures (Some accountA) ''gemini-3-flash'' initialState))
        ''gemini-3-flash'') = Some (0, False, False)"
  by (simp add: fourFailures_def accountA_def initialState_def recordResult_def Let_def
      healthOrInit_def healthObject_def storeHealth_def lookupHealth_def initHealth_def
      onSuccess_def onFailure_def calculateScore_def DEFAULT_CONFIG_def 
      mkLastError_def)

lemma fiveThenFive_run:
  "map_option (\<lambda>r. (successCount r, failCount r, consecutiveFailures r, healthScore r,
                     disabled r, manualDisabled r, disabledAt r))
     (lookupHealth (fst (recordResults fiveThenFive (Some accountA) ''gemini-3-flash'' initialState))
        ''gemini-3-flash'') = Some (5, 5, 5, 20, True, False, Some 10)"
  by (simp add: fiveThenFive_def accountA_def initialState_def recordResult_def Let_def
      healthOrInit_def healthObject_def storeHealth_def lookupHealth_def initHealth_def
      onSuccess_def onFailure_def calculateScore_def DEFAULT_CONFIG_def)

lemma accountAfterFiveFailures_lookup:
  "lookupHealth (Some accountAfterFiveFailures) ''gemini-3-flash'' = Some disabledRecord"
proof -
  obtain a' where a': "fst (recordResults fiveFailures (Some accountA) ''gemini-3-flash''
      initialState) = Some a'"
    using fiveFailures_run
    by (cases "fst (recordResults fiveFailures (Some accountA) ''gemini-3-flash'' initialState)")
      (simp_all add: lookupHealth_def)
  show ?thesis
    using fiveFailures_run by (simp add: accountAfterFiveFailures_def a')
qed

lemma accountAfterFourFailures_lookup:
  "map_option (\<lambda>r. (healthScore r, disabled r, manualDisabled r))
     (lookupHealth (Some accountAfterFourFailures) ''gemini-3-flash'') = Some (0, False, False)"
proof -
  obtain a' where a': "fst (recordResults fourFailures (Some accountA) ''gemini-3-flash''
      initialState) = Some a'"
    using fourFailures_run
    by (cases "fst (recordResults fourFailures (Some accountA) ''gemini-3-flash'' initialState)")
      (simp_all add: lookupHealth_def)
  show ?thesis
    using fourFailures_run by (simp add: accountAfterFourFailures_def a')
qed

lemma stateAfterFiveFailures_config:
  "healthConfig stateAfterFiveFailures = DEFAULT_CONFIG"
  by (simp add: stateAfterFiveFailures_def recordResults_healthConfig initialState_def)

lemma accountManual_from_toggle:
  "toggleModel \<lparr> now = 7, rnd = [] \<rparr>
     (Some \<lparr> email = ''b@example.com'', enabled = None, health = None \<rparr>)
     ''gemini-3-flash'' False
   = (RHealth manuallyDisabledRecord, Some accountManual)"
  by (simp add: toggleModel_def Let_def healthOrInit_def healthObject_def storeHealth_def
      manuallyDisabledRecord_def accountManual_def)


subsection \<open>Statistics\<close>



subsection \<open>Validation of a patch\<close>

lemma map_of_setKey:
  "map_of (setKey k v kvs) k' = (if k' = k then Some v else map_of kvs k')"
  by (induction kvs) auto

lemma map_of_spreadKeys:
  "map_of (spreadKeys old new) k =
     (case map_of (rev new) k of Some v \<Rightarrow> Some v | None \<Rightarrow> map_of old k)"
  unfolding spreadKeys_def
proof (induction new arbitrary: old)
  case Nil
  then show ?case by simp
next
  case (Cons kv new)
  obtain k' v' where kv: "kv = (k', v')" by (cases kv)
  show ?case
    by (simp add: kv Cons.IH map_of_setKey map_add_def split: option.splits)
qed

lemma check_cft:
  "checkConsecutiveFailureThreshold p =
     (if outside isPositiveInteger (p_consecutiveFailureThreshold p)
      then [fieldMessage ConsecutiveFailureThreshold] else [])"
  by (auto simp: checkConsecutiveFailureThreshold_def outside_def isPositiveInteger_def
      jsIsInteger_def fieldMessage_def split: option.splits JsVal.splits)

lemma check_warning:
  "checkWarningThreshold p =
     (if outside (inRange 0 100) (p_warningThreshold p)
      then [fieldMessage WarningThreshold] else [])"
  by (auto simp: checkWarningThreshold_def outside_def inRange_def fieldMessage_def
      split: option.splits JsVal.splits)

lemma check_critical:
  "checkCriticalThreshold p =
     (if outside (inRange 0 100) (p_criticalThreshold p)
      then [fieldMessage CriticalThreshold] else [])"
  by (auto simp: checkCriticalThreshold_def outside_def inRange_def fieldMessage_def
      split: option.splits JsVal.splits)

lemma check_recovery:
  "checkAutoRecoveryMs p =
     (if outside isPositiveNumber (p_autoRecoveryMs p)
      then [fieldMessage AutoRecoveryMs] else [])"
  by (auto simp: checkAutoRecoveryMs_def outside_def isPositiveNumber_def fieldMessage_def
      split: option.splits JsVal.splits)

lemma check_autoDisable:
  "checkAutoDisableEnabled p =
     (if outside isBoolean (p_autoDisableEnabled p)
      then [fieldMessage AutoDisableEnabled] else [])"
  by (auto simp: checkAutoDisableEnabled_def outside_def isBoolean_def fieldMessage_def
      split: option.splits JsVal.splits)

lemma check_maxCount:
  "outside (inRange 1000 50000) (p_eventMaxCount p) \<Longrightarrow>
     checkEventMaxCount p = [fieldMessage EventMaxCount]"
  by (auto simp: checkEventMaxCount_def outside_def inRange_def jsIsInteger_def fieldMessage_def
      split: option.splits JsVal.splits)

lemma check_maxCount_ok:
  "checkEventMaxCount p = [] \<Longrightarrow>
     p_eventMaxCount p = None \<or> (\<exists>q. p_eventMaxCount p = Some (JNum q))"
  by (auto simp: checkEventMaxCount_def jsIsInteger_def split: option.splits JsVal.splits
      if_splits)

lemma check_retention:
  "outside (inRange 1 30) (p_eventRetentionDays p) \<Longrightarrow>
     checkEventRetentionDays p = [fieldMessage EventRetentionDays]"
  by (auto simp: checkEventRetentionDays_def outside_def inRange_def jsIsInteger_def
      fieldMessage_def split: option.splits JsVal.splits)

lemma check_retention_ok:
  "checkEventRetentionDays p = [] \<Longrightarrow>
     p_eventRetentionDays p = None \<or> (\<exists>q. p_eventRetentionDays p = Some (JNum q))"
  by (auto simp: checkEventRetentionDays_def jsIsInteger_def split: option.splits JsVal.splits
      if_splits)

lemma nullish_effective:
  "effective v stored = Some w \<Longrightarrow> nullish v stored = JNum w"
  by (auto simp: effective_def nullish_def split: option.splits JsVal.splits)

lemma jsLess_numbers: "jsLess strToNum (JNum a) (JNum b) = (a < b)"
  by (simp add: jsLess_def jsToNumber_def)

lemma check_order:
  "specFailing stored p ThresholdOrder \<Longrightarrow>
     checkThresholdOrder strToNum stored p = [fieldMessage ThresholdOrder]"
proof -
  assume "specFailing stored p ThresholdOrder"
  then obtain w c where
      "effective (p_warningThreshold p) (warningThreshold stored) = Some w"
      "effective (p_criticalThreshold p) (criticalThreshold stored) = Some c" "w < c"
    by (auto simp: specFailing_def split: option.splits)
  then show ?thesis
    by (simp add: checkThresholdOrder_def Let_def nullish_effective jsLess_numbers
        fieldMessage_def)
qed

lemma inRange_given:
  "\<not> outside (inRange lo hi) v \<Longrightarrow> v = None \<or> (\<exists>q. v = Some (JNum q))"
  by (auto simp: outside_def inRange_def split: option.splits JsVal.splits)

lemma isPositiveInteger_given:
  "\<not> outside isPositiveInteger v \<Longrightarrow> v = None \<or> (\<exists>q. v = Some (JNum q))"
  by (auto simp: outside_def isPositiveInteger_def split: option.splits JsVal.splits)

lemma isPositiveNumber_given:
  "\<not> outside isPositiveNumber v \<Longrightarrow> v = None \<or> (\<exists>q. v = Some (JNum q))"
  by (auto simp: outside_def isPositiveNumber_def split: option.splits JsVal.splits)

lemma isBoolean_given:
  "\<not> outside isBoolean v \<Longrightarrow> givenBool v old (spreadBool old v)"
  by (auto simp: outside_def isBoolean_def givenBool_def spreadBool_def
      split: option.splits JsVal.splits)

lemma givenNum_spread:
  "v = None \<or> (\<exists>q. v = Some (JNum q)) \<Longrightarrow> givenNum v old (spreadNum old v)"
  by (auto simp: givenNum_def spreadNum_def)

lemma errors_all:
  "snd (validateHealthConfig strToNum stored p) =
     checkConsecutiveFailureThreshold p @ checkWarningThreshold p @ checkCriticalThreshold p
     @ checkThresholdOrder strToNum stored p @ checkAutoRecoveryMs p
     @ checkAutoDisableEnabled p @ checkEventMaxCount p @ checkEventRetentionDays p"
  by (simp add: validateHealthConfig_def Let_def)

lemma valid_iff:
  "fst (validateHealthConfig strToNum stored p)
     = (snd (validateHealthConfig strToNum stored p) = [])"
  by (simp add: validateHealthConfig_def Let_def)

lemma specFailing_listed:
  assumes "specFailing stored p f"
  shows "fieldMessage f \<in> set (snd (validateHealthConfig strToNum stored p))"
proof (cases f)
  case ConsecutiveFailureThreshold
  then show ?thesis using assms by (simp add: errors_all check_cft specFailing_def)
next
  case WarningThreshold
  then show ?thesis using assms by (simp add: errors_all check_warning specFailing_def)
next
  case CriticalThreshold
  then show ?thesis using assms by (simp add: errors_all check_critical specFailing_def)
next
  case ThresholdOrder
  then show ?thesis using assms check_order[of stored p strToNum] by (simp add: errors_all)
next
  case AutoRecoveryMs
  then show ?thesis using assms by (simp add: errors_all check_recovery specFailing_def)
next
  case AutoDisableEnabled
  then show ?thesis using assms by (simp add: errors_all check_autoDisable specFailing_def)
next
  case EventMaxCount
  then show ?thesis using assms check_maxCount[of p] by (simp add: errors_all specFailing_def)
next
  case EventRetentionDays
  then show ?thesis using assms check_retention[of p] by (simp add: errors_all specFailing_def)
qed

lemma valid_patchApplied:
  assumes "snd (validateHealthConfig strToNum stored p) = []"
  shows "patchApplied stored p (spreadConfig stored p)"
proof -
  from assms have c: "checkConsecutiveFailureThreshold p = []" "checkWarningThreshold p = []"
      "checkCriticalThreshold p = []" "checkAutoRecoveryMs p = []"
      "checkAutoDisableEnabled p = []" "checkEventMaxCount p = []"
      "checkEventRetentionDays p = []"
    by (simp_all add: errors_all)
  have 1: "givenNum (p_consecutiveFailureThreshold p) (consecutiveFailureThreshold stored)
        (spreadNum (consecutiveFailureThreshold stored) (p_consecutiveFailureThreshold p))"
    using c(1) by (intro givenNum_spread isPositiveInteger_given)
      (simp add: check_cft split: if_splits)
  have 2: "givenNum (p_warningThreshold p) (warningThreshold stored)
        (spreadNum (warningThreshold stored) (p_warningThreshold p))"
    using c(2) by (intro givenNum_spread inRange_given[of 0 100])
      (simp add: check_warning split: if_splits)
  have 3: "givenNum (p_criticalThreshold p) (criticalThreshold stored)
        (spreadNum (criticalThreshold stored) (p_criticalThreshold p))"
    using c(3) by (intro givenNum_spread inRange_given[of 0 100])
      (simp add: check_critical split: if_splits)
  have 4: "givenNum (p_autoRecoveryMs p) (autoRecoveryMs stored)
        (spreadNum (autoRecoveryMs stored) (p_autoRecoveryMs p))"
    using c(4) by (intro givenNum_spread isPositiveNumber_given)
      (simp add: check_recovery split: if_splits)
  have 5: "givenBool (p_autoDisableEnabled p) (autoDisableEnabled stored)
        (spreadBool (autoDisableEnabled stored) (p_autoDisableEnabled p))"
    using c(5) by (intro isBoolean_given) (simp add: check_autoDisable split: if_splits)
  have 6: "givenNum (p_eventMaxCount p) (eventMaxCount stored)
        (spreadNum (eventMaxCount stored) (p_eventMaxCount p))"
    using c(6) by (intro givenNum_spread check_maxCount_ok)
  have 7: "givenNum (p_eventRetentionDays p) (eventRetentionDays stored)
        (spreadNum (eventRetentionDays stored) (p_eventRetentionDays p))"
    using c(7) by (intro givenNum_spread check_retention_ok)
  show ?thesis
    unfolding patchApplied_def using 1 2 3 4 5 6 7
    by (simp add: spreadConfig_def map_of_spreadKeys)
qed

subsection \<open>The broadcast loop and live subscribers\<close>
























section \<open>The claims\<close>

subsection \<open>C1: the stored score is the formula of the counters\<close>



subsection \<open>C2: auto-disable after a failure streak\<close>



subsection \<open>C3: a success resets the streak and respects the manual override\<close>

text \<open>
  Claim C3.  On an existing record, \<open>recordResult\<close> with \<open>success = true\<close> sets
  \<open>consecutiveFailures\<close> to 0 and leaves \<open>manualDisabled\<close> as it was; \<open>disabled\<close>
  goes from true to false, and one \<open>health_change\<close> event with change \<open>recovered\<close>
  and trigger \<open>successful_request\<close> is appended, exactly when the record was disabled
  and not manually disabled; otherwise no event is appended.  After
  \<open>toggleModel(b, m, false)\<close> and then \<open>recordResult(b, m, true)\<close>, for any account
  \<open>b\<close>, \<open>manualDisabled\<close> is still true, \<open>isModelUsable\<close> returns false and the
  event log is unchanged.
\<close>

theorem success_resets_streak_keeps_manual:
  assumes "lookupHealth (Some a) m = Some h"
  shows "(\<exists>r a' st' emitted.
            recordResult env (Some a) m True err st = (RHealth r, Some a', st')
          \<and> lookupHealth (Some a') m = Some r
          \<and> consecutiveFailures r = 0
          \<and> manualDisabled r = manualDisabled h
          \<and> ((disabled h \<and> \<not> disabled r) = (disabled h \<and> \<not> manualDisabled h))
          \<and> disabled r = (disabled h \<and> manualDisabled h)
          \<and> events st' = events st @ emitted
          \<and> map (\<lambda>e. (ev_type e, d_change (ev_details e), d_trigger (ev_details e),
                        ev_account e, ev_model e, ev_severity e)) emitted
              = (if disabled h \<and> \<not> manualDisabled h
                 then [(HEALTH_CHANGE, Some ''recovered'', Some ''successful_request'',
                        orNull (Some (email a)), orNull (Some m), INFO)]
                 else []))
       \<and> (case toggleModel env1 (Some b) m False of
            (r1, b1) \<Rightarrow>
              (case recordResult env2 b1 m True err2 st of
                 (r2, b2, st2) \<Rightarrow>
                   (case isModelUsable env3 b2 m st2 of
                      (usable, b3, st3) \<Rightarrow>
                        map_option manualDisabled (lookupHealth b2 m) = Some True
                      \<and> usable = False
                      \<and> events st2 = events st \<and> events st3 = events st)))"
proof
  from recordResult_success[OF assms, of env err st]
  obtain r a' st' emitted where s:
      "recordResult env (Some a) m True err st = (RHealth r, Some a', st')"
      "lookupHealth (Some a') m = Some r" "consecutiveFailures r = 0"
      "manualDisabled r = manualDisabled h" "disabled r = (disabled h \<and> manualDisabled h)"
      "events st' = events st @ emitted"
      "map (\<lambda>e. (ev_type e, d_change (ev_details e), d_trigger (ev_details e),
                        ev_account e, ev_model e, ev_severity e)) emitted
              = (if disabled h \<and> \<not> manualDisabled h
                 then [(HEALTH_CHANGE, Some ''recovered'', Some ''successful_request'',
                        orNull (Some (email a)), orNull (Some m), INFO)]
                 else [])"
    by blast
  have "(disabled h \<and> \<not> disabled r) = (disabled h \<and> \<not> manualDisabled h)"
    using s(5) by blast
  with s show "\<exists>r a' st' emitted.
            recordResult env (Some a) m True err st = (RHealth r, Some a', st')
          \<and> lookupHealth (Some a') m = Some r
          \<and> consecutiveFailures r = 0
          \<and> manualDisabled r = manualDisabled h
          \<and> ((disabled h \<and> \<not> disabled r) = (disabled h \<and> \<not> manualDisabled h))
          \<and> disabled r = (disabled h \<and> manualDisabled h)
          \<and> events st' = events st @ emitted
          \<and> map (\<lambda>e. (ev_type e, d_change (ev_details e), d_trigger (ev_details e),
                        ev_account e, ev_model e, ev_severity e)) emitted
              = (if disabled h \<and> \<not> manualDisabled h
                 then [(HEALTH_CHANGE, Some ''recovered'', Some ''successful_request'',
                        orNull (Some (email a)), orNull (Some m), INFO)]
                 else [])"
    by blast
next
  obtain h1 where t: "toggleModel env1 (Some b) m False = (RHealth h1, Some (storeHealth b m h1))"
      and m1: "manualDisabled h1"
    using toggleModel_off by blast
  have l1: "lookupHealth (Some (storeHealth b m h1)) m = Some h1"
    by (simp add: lookup_storeHealth)
  from recordResult_success[OF l1, of env2 err2 st]
  obtain r b2 st2 emitted where s:
      "recordResult env2 (Some (storeHealth b m h1)) m True err2 st = (RHealth r, Some b2, st2)"
      "lookupHealth (Some b2) m = Some r"
      "manualDisabled r = manualDisabled h1"
      "events st2 = events st @ emitted"
      "map (\<lambda>e. (ev_type e, d_change (ev_details e), d_trigger (ev_details e),
                        ev_account e, ev_model e, ev_severity e)) emitted
              = (if disabled h1 \<and> \<not> manualDisabled h1
                 then [(HEALTH_CHANGE, Some ''recovered'', Some ''successful_request'',
                        orNull (Some (email (storeHealth b m h1))), orNull (Some m), INFO)]
                 else [])"
    by blast
  have em: "emitted = []"
    using s(5) m1 by simp
  have mr: "manualDisabled r"
    using s(3) m1 by simp
  then have "\<not> recoveryDue env3 (healthConfig st2) r"
    by (simp add: recoveryDue_def)
  then have u: "isModelUsable env3 (Some b2) m st2 = (False, Some b2, st2)"
    using isModelUsable_not_due[OF s(2)] mr by simp
  show "case toggleModel env1 (Some b) m False of
            (r1, b1) \<Rightarrow>
              (case recordResult env2 b1 m True err2 st of
                 (r2, b2, st2) \<Rightarrow>
                   (case isModelUsable env3 b2 m st2 of
                      (usable, b3, st3) \<Rightarrow>
                        map_option manualDisabled (lookupHealth b2 m) = Some True
                      \<and> usable = False
                      \<and> events st2 = events st \<and> events st3 = events st))"
    using s(2,4) em mr by (simp add: t s(1) u)
qed

text \<open>A success on the record that five failures disabled.\<close>

theorem success_resets_streak_keeps_manual_witness:
  "map_option (\<lambda>r. (consecutiveFailures r, manualDisabled r, disabled r))
     (lookupHealth (fst (snd (recordResult envSoon (Some accountAfterFiveFailures)
        ''gemini-3-flash'' True None stateAfterFiveFailures))) ''gemini-3-flash'')
     = Some (0, False, False)
   \<and> map (\<lambda>e. (ev_type e, d_change (ev_details e), d_trigger (ev_details e)))
       (drop (length (events stateAfterFiveFailures))
          (events (snd (snd (recordResult envSoon (Some accountAfterFiveFailures)
             ''gemini-3-flash'' True None stateAfterFiveFailures)))))
     = [(HEALTH_CHANGE, Some ''recovered'', Some ''successful_request'')]"
proof -
  have dis: "disabled disabledRecord" "\<not> manualDisabled disabledRecord"
    by (simp_all add: disabledRecord_def)
  from success_resets_streak_keeps_manual[OF accountAfterFiveFailures_lookup,
      of envSoon None stateAfterFiveFailures]
  obtain r a' st' emitted where s:
      "recordResult envSoon (Some accountAfterFiveFailures) ''gemini-3-flash'' True None
         stateAfterFiveFailures = (RHealth r, Some a', st')"
      "lookupHealth (Some a') ''gemini-3-flash'' = Some r"
      "consecutiveFailures r = 0"
      "manualDisabled r = manualDisabled disabledRecord"
      "disabled r = (disabled disabledRecord \<and> manualDisabled disabledRecord)"
      "events st' = events stateAfterFiveFailures @ emitted"
      "map (\<lambda>e. (ev_type e, d_change (ev_details e), d_trigger (ev_details e),
                        ev_account e, ev_model e, ev_severity e)) emitted
              = (if disabled disabledRecord \<and> \<not> manualDisabled disabledRecord
                 then [(HEALTH_CHANGE, Some ''recovered'', Some ''successful_request'',
                        orNull (Some (email accountAfterFiveFailures)),
                        orNull (Some ''gemini-3-flash''), INFO)]
                 else [])"
    by blast
  from s(7) dis obtain e where e: "emitted = [e]" "ev_type e = HEALTH_CHANGE"
      "d_change (ev_details e) = Some ''recovered''"
      "d_trigger (ev_details e) = Some ''successful_request''"
    by auto
  show ?thesis
    using s(1-6) dis e by simp
qed

subsection \<open>C4: the three cases of \<open>isModelUsable\<close>\<close>

text \<open>
  Claim C4.  \<open>isModelUsable\<close> returns true and changes nothing when there is no
  record (also for an absent account); when recovery is due (the record is
  auto-disabled, not manually disabled, and more than \<open>autoRecoveryMs\<close> have passed
  since \<open>disabledAt\<close>) it clears \<open>disabled\<close> and \<open>consecutiveFailures\<close>, appends
  one \<open>health_change\<close> event with change \<open>recovered\<close> and trigger
  \<open>auto_recovery_timeout\<close>, and returns true; in every other case it changes
  nothing and returns true exactly when the record is neither disabled nor manually
  disabled.
\<close>

theorem isModelUsable_cases:
  "(lookupHealth account m = None \<longrightarrow> isModelUsable env account m st = (True, account, st))
   \<and> (lookupHealth (Some a) m = Some h \<and> recoveryDue env (healthConfig st) h \<longrightarrow>
        (\<exists>a' st' r e.
           isModelUsable env (Some a) m st = (True, Some a', st')
         \<and> lookupHealth (Some a') m = Some r
         \<and> \<not> disabled r \<and> consecutiveFailures r = 0
         \<and> events st' = events st @ [e]
         \<and> ev_type e = HEALTH_CHANGE \<and> d_change (ev_details e) = Some ''recovered''
         \<and> d_trigger (ev_details e) = Some ''auto_recovery_timeout''
         \<and> ev_account e = orNull (Some (email a)) \<and> ev_model e = orNull (Some m)))
   \<and> (lookupHealth (Some a) m = Some h \<and> \<not> recoveryDue env (healthConfig st) h \<longrightarrow>
        isModelUsable env (Some a) m st = (\<not> disabled h \<and> \<not> manualDisabled h, Some a, st))"
proof (intro conjI impI)
  assume "lookupHealth account m = None"
  then show "isModelUsable env account m st = (True, account, st)"
    by (rule isModelUsable_no_record)
next
  assume "lookupHealth (Some a) m = Some h \<and> recoveryDue env (healthConfig st) h"
  then have "\<exists>a' st' r e.
           isModelUsable env (Some a) m st = (True, Some a', st')
         \<and> lookupHealth (Some a') m = Some r
         \<and> \<not> disabled r \<and> consecutiveFailures r = 0
         \<and> manualDisabled r = manualDisabled h
         \<and> events st' = events st @ [e]
         \<and> ev_type e = HEALTH_CHANGE \<and> d_change (ev_details e) = Some ''recovered''
         \<and> d_trigger (ev_details e) = Some ''auto_recovery_timeout''
         \<and> ev_account e = orNull (Some (email a)) \<and> ev_model e = orNull (Some m)"
    using isModelUsable_due by blast
  then show "\<exists>a' st' r e.
           isModelUsable env (Some a) m st = (True, Some a', st')
         \<and> lookupHealth (Some a') m = Some r
         \<and> \<not> disabled r \<and> consecutiveFailures r = 0
         \<and> events st' = events st @ [e]
         \<and> ev_type e = HEALTH_CHANGE \<and> d_change (ev_details e) = Some ''recovered''
         \<and> d_trigger (ev_details e) = Some ''auto_recovery_timeout''
         \<and> ev_account e = orNull (Some (email a)) \<and> ev_model e = orNull (Some m)"
    by blast
next
  assume "lookupHealth (Some a) m = Some h \<and> \<not> recoveryDue env (healthConfig st) h"
  then show "isModelUsable env (Some a) m st
      = (\<not> disabled h \<and> \<not> manualDisabled h, Some a, st)"
    using isModelUsable_not_due by blast
qed

text \<open>
  No record; the record disabled at time 5 asked one millisecond later; the same
  record asked after the recovery time.
\<close>

theorem isModelUsable_cases_witness:
  "isModelUsable envSoon (Some accountA) ''gemini-3-flash'' initialState
     = (True, Some accountA, initialState)
   \<and> isModelUsable envSoon (Some accountAfterFiveFailures) ''gemini-3-flash''
       stateAfterFiveFailures
     = (False, Some accountAfterFiveFailures, stateAfterFiveFailures)
   \<and> fst (isModelUsable envLate (Some accountAfterFiveFailures) ''gemini-3-flash''
       stateAfterFiveFailures) = True
   \<and> map_option (\<lambda>r. (disabled r, consecutiveFailures r))
       (lookupHealth (fst (snd (isModelUsable envLate (Some accountAfterFiveFailures)
          ''gemini-3-flash'' stateAfterFiveFailures))) ''gemini-3-flash'') = Some (False, 0)
   \<and> map (\<lambda>e. (ev_type e, d_change (ev_details e), d_trigger (ev_details e)))
       (drop (length (events stateAfterFiveFailures))
         (events (snd (snd (isModelUsable envLate (Some accountAfterFiveFailures)
            ''gemini-3-flash'' stateAfterFiveFailures)))))
     = [(HEALTH_CHANGE, Some ''recovered'', Some ''auto_recovery_timeout'')]"
proof -
  have none: "lookupHealth (Some accountA) ''gemini-3-flash'' = None"
    by (simp add: lookupHealth_def accountA_def)
  have soon: "\<not> recoveryDue envSoon (healthConfig stateAfterFiveFailures) disabledRecord"
    by (simp add: recoveryDue_def stateAfterFiveFailures_config envSoon_def disabledRecord_def
        DEFAULT_CONFIG_def)
  have late: "recoveryDue envLate (healthConfig stateAfterFiveFailures) disabledRecord"
    by (simp add: recoveryDue_def stateAfterFiveFailures_config envLate_def disabledRecord_def
        DEFAULT_CONFIG_def)
  have dis: "disabled disabledRecord" "\<not> manualDisabled disabledRecord"
    by (simp_all add: disabledRecord_def)
  note look = accountAfterFiveFailures_lookup
  from isModelUsable_cases[of "Some accountA" "''gemini-3-flash''" envSoon initialState]
  have 1: "isModelUsable envSoon (Some accountA) ''gemini-3-flash'' initialState
     = (True, Some accountA, initialState)"
    using none by blast
  from isModelUsable_cases[of _ "''gemini-3-flash''" envSoon stateAfterFiveFailures
      accountAfterFiveFailures disabledRecord]
  have 2: "isModelUsable envSoon (Some accountAfterFiveFailures) ''gemini-3-flash''
       stateAfterFiveFailures
     = (False, Some accountAfterFiveFailures, stateAfterFiveFailures)"
    using look soon dis by simp
  from isModelUsable_cases[of _ "''gemini-3-flash''" envLate stateAfterFiveFailures
      accountAfterFiveFailures disabledRecord]
  obtain a' st' r e where 3:
      "isModelUsable envLate (Some accountAfterFiveFailures) ''gemini-3-flash''
         stateAfterFiveFailures = (True, Some a', st')"
      "lookupHealth (Some a') ''gemini-3-flash'' = Some r"
      "\<not> disabled r" "consecutiveFailures r = 0"
      "events st' = events stateAfterFiveFailures @ [e]"
      "ev_type e = HEALTH_CHANGE" "d_change (ev_details e) = Some ''recovered''"
      "d_trigger (ev_details e) = Some ''auto_recovery_timeout''"
    using look late by blast
  show ?thesis
    using 1 2 3 by simp
qed

subsection \<open>C5: a patch is applied whole or rejected whole\<close>

text \<open>
  Claim C5 says that any field outside its range of section 3 makes the patch fail.
  Section 3 gives \<open>quotaThreshold\<close> the range 0.0 to 0.5; the module does not
  validate that key, and the patch \<open>{ quotaThreshold: 0.9 }\<close> is accepted and stored.
\<close>

theorem setHealthConfig_all_or_nothing_counterexample:
  "map_of (p_otherKeys quotaPatch) ''quotaThreshold'' = Some (JNum (9 / 10))
   \<and> \<not> inRange 0 (1 / 2) (JNum (9 / 10))
   \<and> fst (setHealthConfig noStrings quotaPatch initialState)
       = Inr (DEFAULT_CONFIG\<lparr> otherKeys := [(''quotaThreshold'', JNum (9 / 10))] \<rparr>)
   \<and> healthConfig (snd (setHealthConfig noStrings quotaPatch initialState))
       \<noteq> healthConfig initialState"
  by (simp add: quotaPatch_def emptyPatch_def inRange_def setHealthConfig_def
      validateHealthConfig_def Let_def checkConsecutiveFailureThreshold_def
      checkWarningThreshold_def checkCriticalThreshold_def checkThresholdOrder_def
      checkAutoRecoveryMs_def checkAutoDisableEnabled_def checkEventMaxCount_def
      checkEventRetentionDays_def nullish_def jsLess_numbers initialState_def DEFAULT_CONFIG_def
      spreadConfig_def spreadNum_def spreadBool_def spreadKeys_def)

text \<open>
  Claim C5 as amended.  \<open>setHealthConfig\<close> either returns the list of errors, which
  is not empty and holds the message of every failing check among the seven validated
  fields and the order of the two thresholds, and leaves the state as it was; or no check
  fails, the whole patch is applied, and the new configuration is stored and saved.
\<close>

theorem setHealthConfig_all_or_nothing:
  "(\<exists>errors.
       setHealthConfig strToNum p st = (Inl errors, st)
     \<and> errors \<noteq> []
     \<and> (\<forall>f. specFailing (healthConfig st) p f \<longrightarrow> fieldMessage f \<in> set errors))
   \<or> (\<exists>cfg.
       setHealthConfig strToNum p st
         = (Inr cfg, st\<lparr> healthConfig := cfg, savedConfig := Some cfg \<rparr>)
     \<and> patchApplied (healthConfig st) p cfg
     \<and> (\<forall>f. \<not> specFailing (healthConfig st) p f))"
proof (cases "snd (validateHealthConfig strToNum (healthConfig st) p) = []")
  case False
  define errors where "errors = snd (validateHealthConfig strToNum (healthConfig st) p)"
  have v: "validateHealthConfig strToNum (healthConfig st) p = (False, errors)"
    using False valid_iff[of strToNum "healthConfig st" p]
    by (cases "validateHealthConfig strToNum (healthConfig st) p") (simp add: errors_def)
  have "setHealthConfig strToNum p st = (Inl errors, st)"
    by (simp add: setHealthConfig_def v)
  moreover have "errors \<noteq> []"
    using False by (simp add: errors_def)
  moreover have "\<forall>f. specFailing (healthConfig st) p f \<longrightarrow> fieldMessage f \<in> set errors"
    unfolding errors_def using specFailing_listed by blast
  ultimately show ?thesis by blast
next
  case True
  define cfg where "cfg = spreadConfig (healthConfig st) p"
  have v: "validateHealthConfig strToNum (healthConfig st) p = (True, [])"
    using True valid_iff[of strToNum "healthConfig st" p]
    by (cases "validateHealthConfig strToNum (healthConfig st) p") simp
  have "setHealthConfig strToNum p st
      = (Inr cfg, st\<lparr> healthConfig := cfg, savedConfig := Some cfg \<rparr>)"
    by (simp add: setHealthConfig_def v Let_def cfg_def)
  moreover have "patchApplied (healthConfig st) p cfg"
    unfolding cfg_def using True by (rule valid_patchApplied)
  moreover have "\<forall>f. \<not> specFailing (healthConfig st) p f"
    using specFailing_listed[of "healthConfig st" p _ strToNum] True by auto
  ultimately show ?thesis by blast
qed

text \<open>
  Under the default configuration \<open>{ warningThreshold: 10, eventMaxCount: 500 }\<close> is
  rejected with both messages and no change; \<open>{ warningThreshold: 50,
  autoDisableEnabled: false }\<close> is applied.
\<close>

theorem setHealthConfig_all_or_nothing_witness:
  "snd (setHealthConfig noStrings lowWarningPatch initialState) = initialState
   \<and> set [fieldMessage ThresholdOrder, fieldMessage EventMaxCount]
       \<subseteq> set (case fst (setHealthConfig noStrings lowWarningPatch initialState) of
                 Inl errors \<Rightarrow> errors | Inr cfg \<Rightarrow> [])
   \<and> map_option (\<lambda>cfg. (warningThreshold cfg, autoDisableEnabled cfg, criticalThreshold cfg))
       (case fst (setHealthConfig noStrings goodPatch initialState) of
          Inl errors \<Rightarrow> None | Inr cfg \<Rightarrow> Some cfg)
       = Some (50, False, 25)
   \<and> map_option (\<lambda>cfg. warningThreshold cfg)
       (savedConfig (snd (setHealthConfig noStrings goodPatch initialState))) = Some 50"
proof -
  have bad: "specFailing (healthConfig initialState) lowWarningPatch ThresholdOrder"
      "specFailing (healthConfig initialState) lowWarningPatch EventMaxCount"
    by (simp_all add: specFailing_def effective_def lowWarningPatch_def emptyPatch_def
        initialState_def DEFAULT_CONFIG_def outside_def inRange_def)
  from setHealthConfig_all_or_nothing[of noStrings lowWarningPatch initialState] bad
  obtain errors where e:
      "setHealthConfig noStrings lowWarningPatch initialState = (Inl errors, initialState)"
      "fieldMessage ThresholdOrder \<in> set errors" "fieldMessage EventMaxCount \<in> set errors"
    by blast
  have good: "fst (validateHealthConfig noStrings (healthConfig initialState) goodPatch)"
    by (simp add: goodPatch_def emptyPatch_def validateHealthConfig_def Let_def
        checkConsecutiveFailureThreshold_def
        checkWarningThreshold_def checkCriticalThreshold_def checkThresholdOrder_def
        checkAutoRecoveryMs_def checkAutoDisableEnabled_def checkEventMaxCount_def
        checkEventRetentionDays_def nullish_def jsLess_numbers initialState_def
        DEFAULT_CONFIG_def)
  then have notInl: "\<And>errors.
      setHealthConfig noStrings goodPatch initialState \<noteq> (Inl errors, initialState)"
    by (auto simp: setHealthConfig_def Let_def split: prod.splits)
  from setHealthConfig_all_or_nothing[of noStrings goodPatch initialState] notInl
  obtain cfg where g:
      "setHealthConfig noStrings goodPatch initialState
         = (Inr cfg, initialState\<lparr> healthConfig := cfg, savedConfig := Some cfg \<rparr>)"
      "patchApplied (healthConfig initialState) goodPatch cfg"
    by blast
  from g(2) have "warningThreshold cfg = 50" "autoDisableEnabled cfg = False"
      "criticalThreshold cfg = 25"
    by (simp_all add: patchApplied_def goodPatch_def emptyPatch_def givenNum_def givenBool_def
        initialState_def DEFAULT_CONFIG_def)
  with e g(1) show ?thesis by simp
qed

subsection \<open>C6: the requests block of the statistics\<close>



subsection \<open>C7: the order of the frames a subscriber receives\<close>




subsection \<open>C8: an absent account\<close>



subsection \<open>C9: usability does not depend on the score\<close>

text \<open>
  Claim C9.  For a record that is neither disabled nor manually disabled
  \<open>isModelUsable\<close> returns true and changes nothing, whatever score is stored in
  it; and for any record the answer does not change when the stored score is replaced.
\<close>

theorem isModelUsable_ignores_score:
  "(lookupHealth (Some a) m = Some h \<and> \<not> disabled h \<and> \<not> manualDisabled h \<longrightarrow>
      isModelUsable env (Some a) m st = (True, Some a, st)
    \<and> isModelUsable env (Some (storeHealth a m (h\<lparr> healthScore := score \<rparr>))) m st
        = (True, Some (storeHealth a m (h\<lparr> healthScore := score \<rparr>)), st))
   \<and> fst (isModelUsable env (Some (storeHealth a m (h\<lparr> healthScore := score \<rparr>))) m st)
       = fst (isModelUsable env (Some (storeHealth a m h)) m st)"
proof (intro conjI impI)
  assume a: "lookupHealth (Some a) m = Some h \<and> \<not> disabled h \<and> \<not> manualDisabled h"
  then have "\<not> recoveryDue env (healthConfig st) h"
    by (simp add: recoveryDue_def)
  with a show "isModelUsable env (Some a) m st = (True, Some a, st)"
    using isModelUsable_not_due by simp
  have l: "lookupHealth (Some (storeHealth a m (h\<lparr> healthScore := score \<rparr>))) m
      = Some (h\<lparr> healthScore := score \<rparr>)"
    by (simp add: lookup_storeHealth)
  have "\<not> recoveryDue env (healthConfig st) (h\<lparr> healthScore := score \<rparr>)"
    using a by (simp add: recoveryDue_def)
  then show "isModelUsable env (Some (storeHealth a m (h\<lparr> healthScore := score \<rparr>))) m st
        = (True, Some (storeHealth a m (h\<lparr> healthScore := score \<rparr>)), st)"
    using isModelUsable_not_due[OF l] a by simp
next
  have l: "lookupHealth (Some (storeHealth a m (h\<lparr> healthScore := score \<rparr>))) m
      = Some (h\<lparr> healthScore := score \<rparr>)"
    "lookupHealth (Some (storeHealth a m h)) m = Some h"
    by (simp_all add: lookup_storeHealth)
  have r: "recoveryDue env (healthConfig st) (h\<lparr> healthScore := score \<rparr>)
      = recoveryDue env (healthConfig st) h"
    by (simp add: recoveryDue_def)
  show "fst (isModelUsable env (Some (storeHealth a m (h\<lparr> healthScore := score \<rparr>))) m st)
       = fst (isModelUsable env (Some (storeHealth a m h)) m st)"
  proof (cases "recoveryDue env (healthConfig st) h")
    case True
    then show ?thesis
      using isModelUsable_due[OF l(1), of env st] isModelUsable_due[OF l(2), of env st] r
      by auto
  next
    case False
    then show ?thesis
      using isModelUsable_not_due[OF l(1), of env st] isModelUsable_not_due[OF l(2), of env st] r
      by simp
  qed
qed

text \<open>After four failures the score is 0 and the pair is still usable.\<close>

theorem isModelUsable_ignores_score_witness:
  "map_option (\<lambda>r. (healthScore r, disabled r, manualDisabled r))
     (lookupHealth (Some accountAfterFourFailures) ''gemini-3-flash'') = Some (0, False, False)
   \<and> isModelUsable envSoon (Some accountAfterFourFailures) ''gemini-3-flash'' initialState
       = (True, Some accountAfterFourFailures, initialState)"
proof -
  from accountAfterFourFailures_lookup obtain h where
    h: "lookupHealth (Some accountAfterFourFailures) ''gemini-3-flash'' = Some h"
      "healthScore h = 0" "\<not> disabled h" "\<not> manualDisabled h"
    by auto
  from isModelUsable_ignores_score[of accountAfterFourFailures "''gemini-3-flash''" h envSoon
      initialState 0] h
  show ?thesis by simp
qed

subsection \<open>C10: the \<open>disabled\<close> field of a matrix cell\<close>

text \<open>
  Claim C10.  In the matrix cell of a tracked account and model, \<open>disabled\<close> is
  \<open>record.disabled || record.manualDisabled\<close> and \<open>manualDisabled\<close> is the
  record's own flag; a pair that is manually but not automatically disabled shows
  \<open>disabled: true\<close>.
\<close>

theorem matrix_disabled_is_either_flag:
  assumes "i < length accounts" "m \<in> set modelIds"
    and "lookupHealth (Some (accounts ! i)) m = Some h"
  shows "\<exists>cell. a_models (m_accounts (buildHealthMatrix env accounts modelIds) ! i) m = Some cell
          \<and> c_disabled cell = (disabled h \<or> manualDisabled h)
          \<and> c_manualDisabled cell = manualDisabled h
          \<and> (manualDisabled h \<and> \<not> disabled h \<longrightarrow> c_disabled cell \<and> c_manualDisabled cell)"
proof -
  have "a_models (m_accounts (buildHealthMatrix env accounts modelIds) ! i) m
      = Some (matrixCell (accounts ! i) m)"
    using assms(1,2) by (simp add: buildHealthMatrix_def accountData_def map_of_cells)
  moreover have "c_disabled (matrixCell (accounts ! i) m) = (disabled h \<or> manualDisabled h)"
      "c_manualDisabled (matrixCell (accounts ! i) m) = manualDisabled h"
    using assms(3) by (simp_all add: matrixCell_def)
  ultimately show ?thesis by simp
qed

text \<open>A pair switched off by an operator, in a matrix of two accounts and two models.\<close>

theorem matrix_disabled_is_either_flag_witness:
  "map_option (\<lambda>cell. (c_disabled cell, c_manualDisabled cell))
     (a_models (m_accounts (buildHealthMatrix envSoon [accountA, accountManual]
        [''claude-sonnet-4-5-thinking'', ''gemini-3-flash'']) ! 1) ''gemini-3-flash'')
   = Some (True, True)
   \<and> disabled manuallyDisabledRecord = False"
proof -
  have i: "1 < length [accountA, accountManual]" by simp
  have m: "''gemini-3-flash'' \<in> set [''claude-sonnet-4-5-thinking'', ''gemini-3-flash'']"
    by simp
  have l: "lookupHealth (Some ([accountA, accountManual] ! 1)) ''gemini-3-flash''
      = Some manuallyDisabledRecord"
    by (simp add: lookupHealth_def accountManual_def)
  have d: "manualDisabled manuallyDisabledRecord" "\<not> disabled manuallyDisabledRecord"
    by (simp_all add: manuallyDisabledRecord_def initHealth_def)
  from matrix_disabled_is_either_flag[OF i m l, of envSoon] d
  show ?thesis by auto
qed

end
